theory Spec2Isabelle
  imports Main "HOL-Library.Product_Lexorder" "HOL-Library.Multiset" "HOL-Library.Word"
begin

section \<open>The program\<close>

subsection \<open>Patients and the admission queue\<close>

text \<open>A C++ \<^verbatim>\<open>int\<close>: 32 bits, read as a signed value by \<open>sint\<close> and compared by \<open><s\<close>.\<close>

type_synonym cint = "32 word"

definition INT_MAX :: cint where
  "INT_MAX = 2147483647"

text \<open>
  \<^verbatim>\<open>enum Priority { HIGH, MEDIUM, LOW };\<close> The enumerators carry the values 0, 1, 2, and
  the comparator compares these values.
\<close>

datatype Priority = HIGH | MEDIUM | LOW

fun priority_value :: "Priority \<Rightarrow> int" where
  "priority_value HIGH = 0"
| "priority_value MEDIUM = 1"
| "priority_value LOW = 2"

text \<open>\<^verbatim>\<open>struct Patient { int id; string name; Priority priority; }\<close>\<close>

record Patient =
  id :: cint
  name :: string
  priority :: Priority

text \<open>
  \<^verbatim>\<open>ComparePatient::operator()(a, b)\<close>: the "less than" of the priority queue, so
  \<open>ComparePatient a b\<close> says that \<open>a\<close> leaves the queue after \<open>b\<close>.
\<close>

definition ComparePatient :: "Patient \<Rightarrow> Patient \<Rightarrow> bool" where
  "ComparePatient a b =
     (if priority a = priority b then Patient.id b <s Patient.id a
      else priority_value (priority a) > priority_value (priority b))"

text \<open>
  \<^verbatim>\<open>priority_queue<shared_ptr<Patient>, vector<...>, ComparePatient> patientQueue\<close>.
  The container is the standard library's; it is modelled by its contract. The queue is the
  list of its elements in insertion order, \<open>push\<close> appends, \<open>top\<close> is an element that
  the comparator puts below no other element (the first such element of the list), and
  \<open>pop\<close> removes that element. \<open>top\<close> and \<open>pop\<close> on an empty queue are undefined in
  C++ and are \<open>None\<close> here; the program calls them on a non-empty queue only.
\<close>

type_synonym PatientQueue = "Patient list"

definition push :: "PatientQueue \<Rightarrow> Patient \<Rightarrow> PatientQueue" where
  "push q p = q @ [p]"

fun top_from :: "Patient \<Rightarrow> Patient list \<Rightarrow> Patient" where
  "top_from best [] = best"
| "top_from best (x # xs) = top_from (if ComparePatient best x then x else best) xs"

definition top :: "PatientQueue \<Rightarrow> Patient option" where
  "top q = (case q of [] \<Rightarrow> None | x # xs \<Rightarrow> Some (top_from x xs))"

definition pop :: "PatientQueue \<Rightarrow> PatientQueue option" where
  "pop q = (case top q of None \<Rightarrow> None | Some t \<Rightarrow> Some (remove1 t q))"

text \<open>
  Taking patients off the queue until it is empty, as a worker does: \<open>top\<close> gives the
  patient, \<open>pop\<close> gives the queue that is left.
\<close>

function dequeue_all :: "PatientQueue \<Rightarrow> Patient list" where
  "dequeue_all q =
     (case top q of
        None \<Rightarrow> []
      | Some t \<Rightarrow> (case pop q of None \<Rightarrow> [] | Some q' \<Rightarrow> t # dequeue_all q'))"
  by pat_completeness auto
termination
proof (relation "measure length")
  show "wf (measure length)" by simp
next
  fix q q' :: PatientQueue and t
  assume t: "top q = Some t" and q': "pop q = Some q'"
  have mem: "top_from b xs \<in> set (b # xs)" for b xs
    by (induction xs arbitrary: b) auto
  have "t \<in> set q"
    using t mem by (auto simp: top_def split: list.splits)
  then have "length (remove1 t q) < length q"
    using length_pos_if_in_set [of t q] by (simp add: length_remove1)
  moreover have "q' = remove1 t q"
    using t q' by (simp add: pop_def)
  ultimately show "(q', q) \<in> measure length"
    by simp
qed

declare dequeue_all.simps [simp del]

text \<open>The key the comparator orders by: priority value first, then \<open>id\<close>.\<close>

definition patient_key :: "Patient \<Rightarrow> int \<times> int" where
  "patient_key p = (priority_value (priority p), sint (Patient.id p))"

subsection \<open>The semaphore\<close>

text \<open>
  What stops a call from returning a state: \<open>Blocks\<close> when the caller waits on a condition
  that does not hold in the state it was given, \<open>Overflow\<close> when \<^verbatim>\<open>++count\<close> would leave
  the range of \<^verbatim>\<open>int\<close> (undefined in C++), \<open>Returned\<close> when the thread function has returned.
\<close>

datatype stop = Blocks | Overflow | Returned

text \<open>
  \<^verbatim>\<open>class Semaphore { int count; mutex mtx; condition_variable cv; ... }\<close> Every member
  function runs under \<^verbatim>\<open>mtx\<close>, so each is one atomic step on \<open>count\<close>.
\<close>

record Semaphore =
  count :: cint

definition Semaphore :: "cint \<Rightarrow> Semaphore" where
  "Semaphore initialCount = \<lparr>count = initialCount\<rparr>"

text \<open>\<^verbatim>\<open>acquire\<close> waits until \<^verbatim>\<open>count > 0\<close>, then decrements.\<close>

definition acquire :: "Semaphore \<Rightarrow> stop + Semaphore" where
  "acquire s = (if 0 <s count s then Inr (s\<lparr>count := count s - 1\<rparr>) else Inl Blocks)"

definition release :: "Semaphore \<Rightarrow> stop + Semaphore" where
  "release s = (if count s = INT_MAX then Inl Overflow else Inr (s\<lparr>count := count s + 1\<rparr>))"

definition try_acquire :: "Semaphore \<Rightarrow> bool \<times> Semaphore" where
  "try_acquire s = (if 0 <s count s then (True, s\<lparr>count := count s - 1\<rparr>) else (False, s))"

definition available :: "Semaphore \<Rightarrow> cint" where
  "available s = count s"

text \<open>\<open>n\<close> times \<^verbatim>\<open>acquire(); release();\<close> by one caller.\<close>

fun acquire_release :: "nat \<Rightarrow> Semaphore \<Rightarrow> stop + Semaphore" where
  "acquire_release 0 s = Inr s"
| "acquire_release (Suc n) s =
     (case acquire s of Inl e \<Rightarrow> Inl e
      | Inr s1 \<Rightarrow> (case release s1 of Inl e \<Rightarrow> Inl e
          | Inr s2 \<Rightarrow> acquire_release n s2))"

text \<open>
  A single-threaded harness over one pool. The class keeps no capacity: the program adds a
  unit by calling \<^verbatim>\<open>release\<close> (as \<^verbatim>\<open>dynamicResourceGeneration\<close> does), so the harness
  keeps the books. \<open>capacity\<close> is the constructor's count plus the units added by
  \<open>AdjustCapacity_op\<close>; \<open>held\<close> counts the units taken by \<open>Acquire_op\<close> and
  \<open>TryAcquire_op\<close> and not yet given back by \<open>Release_op\<close>.
\<close>

datatype pool_op = Acquire_op | TryAcquire_op | Release_op | AdjustCapacity_op

record harness =
  pool :: Semaphore
  capacity :: int
  held :: nat

definition new_pool :: "cint \<Rightarrow> harness" where
  "new_pool n = \<lparr>pool = Semaphore n, capacity = sint n, held = 0\<rparr>"

fun apply_op :: "pool_op \<Rightarrow> harness \<Rightarrow> stop + harness" where
  "apply_op Acquire_op t =
     (case acquire (pool t) of Inl e \<Rightarrow> Inl e
      | Inr s \<Rightarrow> Inr (t\<lparr>pool := s, held := Suc (held t)\<rparr>))"
| "apply_op TryAcquire_op t =
     (case try_acquire (pool t) of
        (True, s) \<Rightarrow> Inr (t\<lparr>pool := s, held := Suc (held t)\<rparr>)
      | (False, s) \<Rightarrow> Inr (t\<lparr>pool := s\<rparr>))"
| "apply_op Release_op t =
     (case release (pool t) of Inl e \<Rightarrow> Inl e
      | Inr s \<Rightarrow> Inr (t\<lparr>pool := s, held := held t - 1\<rparr>))"
| "apply_op AdjustCapacity_op t =
     (case release (pool t) of Inl e \<Rightarrow> Inl e
      | Inr s \<Rightarrow> Inr (t\<lparr>pool := s, capacity := capacity t + 1\<rparr>))"

text \<open>
  The observable points of a run: the state before the first operation and after each one
  that returns. The run ends at an operation that does not return.
\<close>

fun snapshots :: "harness \<Rightarrow> pool_op list \<Rightarrow> harness list" where
  "snapshots t [] = [t]"
| "snapshots t (x # xs) =
     t # (case apply_op x t of Inl e \<Rightarrow> [] | Inr t' \<Rightarrow> snapshots t' xs)"

text \<open>Every \<open>Release_op\<close> of the run gives back a unit that is held at that point.\<close>

fun releases_held :: "harness \<Rightarrow> pool_op list \<Rightarrow> bool" where
  "releases_held t [] = True"
| "releases_held t (x # xs) =
     ((x \<noteq> Release_op \<or> 0 < held t) \<and>
      (case apply_op x t of Inl e \<Rightarrow> True | Inr t' \<Rightarrow> releases_held t' xs))"

subsection \<open>The shared state of the simulation\<close>

text \<open>
  What the threads write to \<^verbatim>\<open>cout\<close>, one entry per line: a table row of
  \<^verbatim>\<open>displayState\<close> (entity, id, name, priority, status and the four available counts),
  a plain message, or the message of \<^verbatim>\<open>dynamicResourceGeneration\<close> with its three
  numbers.
\<close>

datatype console_line =
    Row string cint string string string cint cint cint cint
  | Line string
  | AdditionalResources cint cint cint

text \<open>
  The globals: the queue and its mutex (\<open>True\<close> when locked), the four semaphores, the
  flag \<^verbatim>\<open>isRunning\<close>, and the console. The console records what the threads print;
  the banner and the table header that \<^verbatim>\<open>main\<close> prints before it starts them are left out,
  so it is empty at the start.
\<close>

record Hospital =
  patientQueue :: PatientQueue
  queueMutex :: bool
  doctorsAvailable :: Semaphore
  nursesAvailable :: Semaphore
  examRoomsAvailable :: Semaphore
  ventilatorsAvailable :: Semaphore
  isRunning :: bool
  console :: "console_line list"

definition initial_hospital :: Hospital where
  "initial_hospital =
     \<lparr>patientQueue = [], queueMutex = False,
      doctorsAvailable = Semaphore 3, nursesAvailable = Semaphore 2,
      examRoomsAvailable = Semaphore 2, ventilatorsAvailable = Semaphore 1,
      isRunning = True, console = []\<rparr>"

text \<open>
  \<^verbatim>\<open>priorityToString\<close>; its \<^verbatim>\<open>default\<close> branch ("Unknown") is for values outside the
  enumeration, which the program never makes.
\<close>

fun priorityToString :: "Priority \<Rightarrow> string" where
  "priorityToString HIGH = ''High''"
| "priorityToString MEDIUM = ''Medium''"
| "priorityToString LOW = ''Low''"

text \<open>\<^verbatim>\<open>displayState\<close> prints one row; the four counts are read as one snapshot.\<close>

definition displayState ::
  "string \<Rightarrow> cint \<Rightarrow> string \<Rightarrow> string \<Rightarrow> string \<Rightarrow> Hospital \<Rightarrow> Hospital" where
  "displayState entity i nm prio status h =
     h\<lparr>console := console h @
       [Row entity i nm prio status
          (available (doctorsAvailable h)) (available (nursesAvailable h))
          (available (examRoomsAvailable h)) (available (ventilatorsAvailable h))]\<rparr>"

subsection \<open>The doctor threads\<close>

text \<open>
  \<^verbatim>\<open>treatPatient(doctorId)\<close> as a machine of atomic steps. A control point carries the
  thread's locals (\<^verbatim>\<open>currentPatient\<close>, \<^verbatim>\<open>ventilatorAllocated\<close>). A step is given the
  shared state of the moment, so other threads may run between any two steps.

  The block under \<^verbatim>\<open>queueMutex\<close> (lock, \<^verbatim>\<open>cv.wait\<close>, the test for the \<^verbatim>\<open>break\<close>,
  \<^verbatim>\<open>top\<close> and \<^verbatim>\<open>pop\<close>) is one step, \<open>WaitQueue\<close>: it blocks while another thread
  holds the mutex and while the predicate of the wait is false. Notifications are not
  modelled: a waiting thread can go on as soon as its predicate holds, so the machine has
  every behaviour of the thread. Each call of a semaphore is one step, and so is each call
  of \<^verbatim>\<open>displayState\<close>; the message about the ventilator is printed in the step of the
  failed attempt.
\<close>

datatype doctor_pc =
    LoopTest
  | WaitQueue
  | AcquireDoctor Patient
  | AcquireNurse Patient
  | AcquireRoom Patient
  | TryVentilator Patient
  | ShowTreating Patient bool
  | Treating Patient bool
  | ReleaseVentilator Patient bool
  | ReleaseDoctor Patient
  | ReleaseNurse Patient
  | ReleaseRoom Patient
  | ShowFinished Patient
  | Terminated

text \<open>What a step does to the queue and the pools, for the record of a run.\<close>

datatype resource = Doctor | Nurse | ExamRoom | Ventilator

datatype event =
    Dequeued Patient
  | Acquired resource
  | TryAcquired resource bool
  | Released resource

fun treatPatient_step ::
  "cint \<Rightarrow> Hospital \<Rightarrow> doctor_pc \<Rightarrow> stop + (event list \<times> Hospital \<times> doctor_pc)" where
  "treatPatient_step doctorId h LoopTest =
     (if isRunning h then Inr ([], h, WaitQueue) else Inr ([], h, Terminated))"
| "treatPatient_step doctorId h WaitQueue =
     (if queueMutex h then Inl Blocks
      else if \<not> (patientQueue h \<noteq> [] \<or> \<not> isRunning h) then Inl Blocks
      else if \<not> isRunning h \<and> patientQueue h = [] then Inr ([], h, Terminated)
      else (case top (patientQueue h) of
              None \<Rightarrow> Inl Blocks
            | Some p \<Rightarrow>
                (case pop (patientQueue h) of
                   None \<Rightarrow> Inl Blocks
                 | Some q \<Rightarrow> Inr ([Dequeued p], h\<lparr>patientQueue := q\<rparr>, AcquireDoctor p))))"
| "treatPatient_step doctorId h (AcquireDoctor p) =
     (case acquire (doctorsAvailable h) of
        Inl e \<Rightarrow> Inl e
      | Inr s \<Rightarrow> Inr ([Acquired Doctor], h\<lparr>doctorsAvailable := s\<rparr>, AcquireNurse p))"
| "treatPatient_step doctorId h (AcquireNurse p) =
     (case acquire (nursesAvailable h) of
        Inl e \<Rightarrow> Inl e
      | Inr s \<Rightarrow> Inr ([Acquired Nurse], h\<lparr>nursesAvailable := s\<rparr>, AcquireRoom p))"
| "treatPatient_step doctorId h (AcquireRoom p) =
     (case acquire (examRoomsAvailable h) of
        Inl e \<Rightarrow> Inl e
      | Inr s \<Rightarrow> Inr ([Acquired ExamRoom], h\<lparr>examRoomsAvailable := s\<rparr>, TryVentilator p))"
| "treatPatient_step doctorId h (TryVentilator p) =
     (if priority p = HIGH then
        (case try_acquire (ventilatorsAvailable h) of
           (True, s) \<Rightarrow>
             Inr ([TryAcquired Ventilator True], h\<lparr>ventilatorsAvailable := s\<rparr>,
                  ShowTreating p True)
         | (False, s) \<Rightarrow>
             Inr ([TryAcquired Ventilator False],
                  h\<lparr>ventilatorsAvailable := s,
                    console := console h @ [Line (''Ventilator unavailable for '' @ name p)]\<rparr>,
                  ShowTreating p False))
      else Inr ([], h, ShowTreating p False))"
| "treatPatient_step doctorId h (ShowTreating p v) =
     Inr ([], displayState ''Doctor'' doctorId (name p) (priorityToString (priority p))
                ''Treating...'' h,
          Treating p v)"
| "treatPatient_step doctorId h (Treating p v) = Inr ([], h, ReleaseVentilator p v)"
| "treatPatient_step doctorId h (ReleaseVentilator p v) =
     (if v then
        (case release (ventilatorsAvailable h) of
           Inl e \<Rightarrow> Inl e
         | Inr s \<Rightarrow> Inr ([Released Ventilator], h\<lparr>ventilatorsAvailable := s\<rparr>, ReleaseDoctor p))
      else Inr ([], h, ReleaseDoctor p))"
| "treatPatient_step doctorId h (ReleaseDoctor p) =
     (case release (doctorsAvailable h) of
        Inl e \<Rightarrow> Inl e
      | Inr s \<Rightarrow> Inr ([Released Doctor], h\<lparr>doctorsAvailable := s\<rparr>, ReleaseNurse p))"
| "treatPatient_step doctorId h (ReleaseNurse p) =
     (case release (nursesAvailable h) of
        Inl e \<Rightarrow> Inl e
      | Inr s \<Rightarrow> Inr ([Released Nurse], h\<lparr>nursesAvailable := s\<rparr>, ReleaseRoom p))"
| "treatPatient_step doctorId h (ReleaseRoom p) =
     (case release (examRoomsAvailable h) of
        Inl e \<Rightarrow> Inl e
      | Inr s \<Rightarrow> Inr ([Released ExamRoom], h\<lparr>examRoomsAvailable := s\<rparr>, ShowFinished p))"
| "treatPatient_step doctorId h (ShowFinished p) =
     Inr ([], displayState ''Doctor'' doctorId (name p) (priorityToString (priority p))
                ''Finished'' h,
          LoopTest)"
| "treatPatient_step doctorId h Terminated = Inl Returned"

text \<open>
  One doctor running alone for \<open>n\<close> steps: each step works on the state the step before
  left. The result is the events of the steps, the last state and the control point reached;
  the run stops at a step that does not return.
\<close>

fun treatPatient_run ::
  "cint \<Rightarrow> nat \<Rightarrow> Hospital \<Rightarrow> doctor_pc \<Rightarrow> stop + (event list \<times> Hospital \<times> doctor_pc)" where
  "treatPatient_run doctorId 0 h pc = Inr ([], h, pc)"
| "treatPatient_run doctorId (Suc n) h pc =
     (case treatPatient_step doctorId h pc of
        Inl e \<Rightarrow> Inl e
      | Inr (es, h', pc') \<Rightarrow>
          (case treatPatient_run doctorId n h' pc' of
             Inl e \<Rightarrow> Inl e
           | Inr (es', h'', pc'') \<Rightarrow> Inr (es @ es', h'', pc'')))"

text \<open>
  One doctor among other threads: the list gives the shared state the doctor finds each
  time it is scheduled, whatever the other threads made of it. A step that blocks is tried
  again on the next state; the record ends when a step overflows or the thread has returned.
\<close>

fun treatPatient_trace :: "cint \<Rightarrow> Hospital list \<Rightarrow> doctor_pc \<Rightarrow> event list" where
  "treatPatient_trace doctorId [] pc = []"
| "treatPatient_trace doctorId (h # hs) pc =
     (case treatPatient_step doctorId h pc of
        Inl Blocks \<Rightarrow> treatPatient_trace doctorId hs pc
      | Inl Overflow \<Rightarrow> []
      | Inl Returned \<Rightarrow> []
      | Inr (es, h', pc') \<Rightarrow> es @ treatPatient_trace doctorId hs pc')"

text \<open>The blocking acquisitions of a record, in order.\<close>

fun acquisitions :: "event list \<Rightarrow> resource list" where
  "acquisitions [] = []"
| "acquisitions (Acquired r # es) = r # acquisitions es"
| "acquisitions (e # es) = acquisitions es"

text \<open>An attempt to take a ventilator, blocking or not, successful or not.\<close>

fun ventilator_attempt :: "event \<Rightarrow> bool" where
  "ventilator_attempt (Acquired r) = (r = Ventilator)"
| "ventilator_attempt (TryAcquired r b) = (r = Ventilator)"
| "ventilator_attempt e = False"

subsection \<open>The other threads\<close>

text \<open>
  \<^verbatim>\<open>addPatient\<close> runs under the queue's mutex: it waits while another thread holds it,
  then pushes the patient and prints the arrival.
\<close>

definition addPatient :: "cint \<Rightarrow> string \<Rightarrow> Priority \<Rightarrow> Hospital \<Rightarrow> stop + Hospital" where
  "addPatient i nm prio h =
     (if queueMutex h then Inl Blocks
      else Inr (displayState ''Patient'' i nm (priorityToString prio) ''Arrived''
             (h\<lparr>patientQueue := push (patientQueue h) \<lparr>id = i, name = nm, priority = prio\<rparr>\<rparr>)))"

text \<open>\<^verbatim>\<open>to_string\<close> of an \<^verbatim>\<open>int\<close>: decimal digits, with a sign when negative.\<close>

fun decimal :: "nat \<Rightarrow> string" where
  "decimal n =
     (if n < 10 then [''0123456789'' ! n]
      else decimal (n div 10) @ [''0123456789'' ! (n mod 10)])"

declare decimal.simps [simp del]

definition to_string :: "cint \<Rightarrow> string" where
  "to_string i =
     (if i <s 0 then CHR ''-'' # decimal (nat (- sint i)) else decimal (nat (sint i)))"

text \<open>\<^verbatim>\<open>Priority(rand() % 3)\<close>, for the value \<open>r\<close> that \<^verbatim>\<open>rand()\<close> returned.\<close>

definition random_priority :: "nat \<Rightarrow> Priority" where
  "random_priority r = (if r mod 3 = 0 then HIGH else if r mod 3 = 1 then MEDIUM else LOW)"

text \<open>
  \<^verbatim>\<open>patientArrival\<close>. Its local \<^verbatim>\<open>patientId\<close> is part of the thread's state. In
  \<^verbatim>\<open>addPatient(patientId++, "Patient_" + to_string(patientId), ...)\<close> the language does
  not fix whether the name is built before or after the increment; \<open>after\<close> says which.
  The lengths of the sleeps are not modelled.
\<close>

datatype arrival_pc = ArrivalLoopTest | ArrivalSleep | ArrivalAdd | ArrivalTerminated

fun patientArrival_step ::
  "nat \<Rightarrow> bool \<Rightarrow> Hospital \<Rightarrow> cint \<times> arrival_pc \<Rightarrow> stop + (Hospital \<times> cint \<times> arrival_pc)" where
  "patientArrival_step r after h (patientId, ArrivalLoopTest) =
     (if isRunning h then Inr (h, patientId, ArrivalSleep)
      else Inr (h, patientId, ArrivalTerminated))"
| "patientArrival_step r after h (patientId, ArrivalSleep) = Inr (h, patientId, ArrivalAdd)"
| "patientArrival_step r after h (patientId, ArrivalAdd) =
     (if patientId = INT_MAX then Inl Overflow
      else (case addPatient patientId
                   (''Patient_'' @ to_string (if after then patientId + 1 else patientId))
                   (random_priority r) h of
              Inl e \<Rightarrow> Inl e
            | Inr h' \<Rightarrow> Inr (h', patientId + 1, ArrivalLoopTest)))"
| "patientArrival_step r after h (patientId, ArrivalTerminated) = Inl Returned"

text \<open>
  \<^verbatim>\<open>dynamicResourceGeneration\<close>. The body of the loop runs under the queue's mutex:
  \<open>GenLock\<close> takes it and \<open>GenReport\<close> gives it back. The three values of
  \<^verbatim>\<open>rand()\<close> are given to the step that enters the body; the control points of the three
  \<^verbatim>\<open>for\<close> loops carry the loop counter and the three numbers. Every \<^verbatim>\<open>release\<close>
  is a step of its own, since the doctor threads use the semaphores without the mutex.
\<close>

datatype resource_pc =
    GenLoopTest
  | GenSleep
  | GenLock
  | GenDoctors cint cint cint cint
  | GenNurses cint cint cint cint
  | GenRooms cint cint cint cint
  | GenReport cint cint cint
  | GenTerminated

fun dynamicResourceGeneration_step ::
  "nat \<Rightarrow> nat \<Rightarrow> nat \<Rightarrow> Hospital \<Rightarrow> resource_pc \<Rightarrow> stop + (Hospital \<times> resource_pc)" where
  "dynamicResourceGeneration_step r1 r2 r3 h GenLoopTest =
     (if isRunning h then Inr (h, GenSleep) else Inr (h, GenTerminated))"
| "dynamicResourceGeneration_step r1 r2 r3 h GenSleep = Inr (h, GenLock)"
| "dynamicResourceGeneration_step r1 r2 r3 h GenLock =
     (if queueMutex h then Inl Blocks
      else Inr (h\<lparr>queueMutex := True\<rparr>,
                GenDoctors 0 (of_nat (r1 mod 2)) (of_nat (r2 mod 2)) (of_nat (r3 mod 2))))"
| "dynamicResourceGeneration_step r1 r2 r3 h (GenDoctors i newDoctors newNurses newExamRooms) =
     (if i <s newDoctors then
        (case release (doctorsAvailable h) of
           Inl e \<Rightarrow> Inl e
         | Inr s \<Rightarrow> Inr (h\<lparr>doctorsAvailable := s\<rparr>,
                          GenDoctors (i + 1) newDoctors newNurses newExamRooms))
      else Inr (h, GenNurses 0 newDoctors newNurses newExamRooms))"
| "dynamicResourceGeneration_step r1 r2 r3 h (GenNurses i newDoctors newNurses newExamRooms) =
     (if i <s newNurses then
        (case release (nursesAvailable h) of
           Inl e \<Rightarrow> Inl e
         | Inr s \<Rightarrow> Inr (h\<lparr>nursesAvailable := s\<rparr>,
                          GenNurses (i + 1) newDoctors newNurses newExamRooms))
      else Inr (h, GenRooms 0 newDoctors newNurses newExamRooms))"
| "dynamicResourceGeneration_step r1 r2 r3 h (GenRooms i newDoctors newNurses newExamRooms) =
     (if i <s newExamRooms then
        (case release (examRoomsAvailable h) of
           Inl e \<Rightarrow> Inl e
         | Inr s \<Rightarrow> Inr (h\<lparr>examRoomsAvailable := s\<rparr>,
                          GenRooms (i + 1) newDoctors newNurses newExamRooms))
      else Inr (h, GenReport newDoctors newNurses newExamRooms))"
| "dynamicResourceGeneration_step r1 r2 r3 h (GenReport newDoctors newNurses newExamRooms) =
     Inr (h\<lparr>console := console h @
              (if 0 <s newDoctors \<or> 0 <s newNurses \<or> 0 <s newExamRooms
               then [AdditionalResources newDoctors newNurses newExamRooms] else []),
            queueMutex := False\<rparr>,
          GenLoopTest)"
| "dynamicResourceGeneration_step r1 r2 r3 h GenTerminated = Inl Returned"

text \<open>
  \<^verbatim>\<open>staffBehavior\<close>. The body of the loop runs under the queue's mutex, the break
  included: \<open>StaffTry\<close> takes the mutex and keeps it when the attempt succeeds,
  \<open>StaffReturn\<close> gives it back.
\<close>

datatype staff_pc =
    StaffLoopTest
  | StaffSleep
  | StaffTry
  | StaffBreak
  | StaffRelease
  | StaffReturn
  | StaffTerminated

fun staffBehavior_step :: "Hospital \<Rightarrow> staff_pc \<Rightarrow> stop + (Hospital \<times> staff_pc)" where
  "staffBehavior_step h StaffLoopTest =
     (if isRunning h then Inr (h, StaffSleep) else Inr (h, StaffTerminated))"
| "staffBehavior_step h StaffSleep = Inr (h, StaffTry)"
| "staffBehavior_step h StaffTry =
     (if queueMutex h then Inl Blocks
      else (case try_acquire (doctorsAvailable h) of
              (True, s) \<Rightarrow> Inr (h\<lparr>queueMutex := True, doctorsAvailable := s\<rparr>, StaffBreak)
            | (False, s) \<Rightarrow> Inr (h\<lparr>doctorsAvailable := s\<rparr>, StaffLoopTest)))"
| "staffBehavior_step h StaffBreak = Inr (h, StaffRelease)"
| "staffBehavior_step h StaffRelease =
     (case release (doctorsAvailable h) of
        Inl e \<Rightarrow> Inl e
      | Inr s \<Rightarrow> Inr (h\<lparr>doctorsAvailable := s\<rparr>, StaffReturn))"
| "staffBehavior_step h StaffReturn =
     Inr (h\<lparr>console := console h @
              [Line ''A doctor has returned from a break, increasing availability.''],
            queueMutex := False\<rparr>,
          StaffLoopTest)"
| "staffBehavior_step h StaffTerminated = Inl Returned"

text \<open>
  The staff thread running alone for at most \<open>n\<close> steps: the shared state and the control
  point after each step, up to a step that does not return.
\<close>

fun staffBehavior_run :: "nat \<Rightarrow> Hospital \<Rightarrow> staff_pc \<Rightarrow> (Hospital \<times> staff_pc) list" where
  "staffBehavior_run 0 h pc = []"
| "staffBehavior_run (Suc n) h pc =
     (case staffBehavior_step h pc of
        Inl e \<Rightarrow> []
      | Inr (h', pc') \<Rightarrow> (h', pc') # staffBehavior_run n h' pc')"

subsection \<open>The whole simulation\<close>

text \<open>
  \<^verbatim>\<open>main\<close> starts three doctor threads with the ids 1, 2, 3, the arrival thread, the
  resource thread and the staff thread, and later clears \<^verbatim>\<open>isRunning\<close>. A state of
  the simulation is the shared state with the control point of every thread.
\<close>

record System =
  hospital :: Hospital
  doctorThreads :: "doctor_pc list"
  patientThread :: "cint \<times> arrival_pc"
  resourceThread :: resource_pc
  staffBehaviorThread :: staff_pc

definition initial_system :: System where
  "initial_system =
     \<lparr>hospital = initial_hospital,
      doctorThreads = [LoopTest, LoopTest, LoopTest],
      patientThread = (1, ArrivalLoopTest),
      resourceThread = GenLoopTest,
      staffBehaviorThread = StaffLoopTest\<rparr>"

text \<open>
  The scheduler's choice: which thread takes its next step, with the values \<^verbatim>\<open>rand()\<close>
  returns in that step; \<open>StopRunning\<close> is \<^verbatim>\<open>isRunning = false\<close> in \<^verbatim>\<open>main\<close>.
\<close>

datatype action =
    RunDoctor nat
  | RunArrival nat bool
  | RunResource nat nat nat
  | RunStaff
  | StopRunning

fun system_step :: "action \<Rightarrow> System \<Rightarrow> stop + System" where
  "system_step (RunDoctor i) s =
     (if i < length (doctorThreads s) then
        (case treatPatient_step (of_nat (i + 1)) (hospital s) (doctorThreads s ! i) of
           Inl e \<Rightarrow> Inl e
         | Inr (es, h', pc') \<Rightarrow>
             Inr (s\<lparr>hospital := h', doctorThreads := (doctorThreads s)[i := pc']\<rparr>))
      else Inl Returned)"
| "system_step (RunArrival r after) s =
     (case patientArrival_step r after (hospital s) (patientThread s) of
        Inl e \<Rightarrow> Inl e
      | Inr (h', t') \<Rightarrow> Inr (s\<lparr>hospital := h', patientThread := t'\<rparr>))"
| "system_step (RunResource r1 r2 r3) s =
     (case dynamicResourceGeneration_step r1 r2 r3 (hospital s) (resourceThread s) of
        Inl e \<Rightarrow> Inl e
      | Inr (h', pc') \<Rightarrow> Inr (s\<lparr>hospital := h', resourceThread := pc'\<rparr>))"
| "system_step RunStaff s =
     (case staffBehavior_step (hospital s) (staffBehaviorThread s) of
        Inl e \<Rightarrow> Inl e
      | Inr (h', pc') \<Rightarrow> Inr (s\<lparr>hospital := h', staffBehaviorThread := pc'\<rparr>))"
| "system_step StopRunning s = Inr (s\<lparr>hospital := (hospital s)\<lparr>isRunning := False\<rparr>\<rparr>)"

text \<open>A schedule is run from left to right; it stops at a step that does not return.\<close>

fun run_system :: "action list \<Rightarrow> System \<Rightarrow> stop + System" where
  "run_system [] s = Inr s"
| "run_system (a # as) s =
     (case system_step a s of Inl e \<Rightarrow> Inl e | Inr s' \<Rightarrow> run_system as s')"

subsection \<open>Records of runs and scenarios\<close>

text \<open>The control points at which a doctor thread holds the ventilator.\<close>

fun holds_ventilator :: "doctor_pc \<Rightarrow> bool" where
  "holds_ventilator (ShowTreating p v) = v"
| "holds_ventilator (Treating p v) = v"
| "holds_ventilator (ReleaseVentilator p v) = v"
| "holds_ventilator pc = False"

text \<open>
  The number of doctor threads that hold the ventilator, and the books of the ventilator
  pool: the units available and the units in use make up the one ventilator.
\<close>

definition ventilators_in_use :: "System \<Rightarrow> nat" where
  "ventilators_in_use s = length (filter holds_ventilator (doctorThreads s))"

definition ventilator_books :: "System \<Rightarrow> bool" where
  "ventilator_books s \<longleftrightarrow>
     sint (available (ventilatorsAvailable (hospital s))) + int (ventilators_in_use s) = 1 \<and>
     0 \<le> sint (available (ventilatorsAvailable (hospital s)))"

text \<open>The patients a record shows leaving the queue.\<close>

fun dequeued :: "event list \<Rightarrow> Patient list" where
  "dequeued [] = []"
| "dequeued (Dequeued p # es) = p # dequeued es"
| "dequeued (e # es) = dequeued es"

text \<open>A state after shutdown in which two patients are still waiting.\<close>

definition waiting_room :: Hospital where
  "waiting_room = initial_hospital\<lparr>isRunning := False, patientQueue :=
       [\<lparr>id = 1, name = ''Patient_1'', priority = LOW\<rparr>,
        \<lparr>id = 2, name = ''Patient_2'', priority = LOW\<rparr>]\<rparr>"

text \<open>
  A schedule of the simulation. Four patients arrive, the fourth while the three doctor
  threads are busy with the first three (the third doctor waits for a nurse); then
  \<^verbatim>\<open>main\<close> clears the flag, and the doctor threads finish what they hold.
\<close>

definition shutdown_schedule :: "action list" where
  "shutdown_schedule =
     [RunArrival 1 True, RunArrival 1 True, RunArrival 1 True,
      RunArrival 1 True, RunArrival 1 True, RunArrival 1 True,
      RunArrival 1 True, RunArrival 1 True, RunArrival 1 True,
      RunDoctor 0, RunDoctor 0, RunDoctor 0, RunDoctor 0, RunDoctor 0, RunDoctor 0, RunDoctor 0,
      RunDoctor 1, RunDoctor 1, RunDoctor 1, RunDoctor 1, RunDoctor 1, RunDoctor 1, RunDoctor 1,
      RunDoctor 2, RunDoctor 2, RunDoctor 2,
      RunArrival 1 True, RunArrival 1 True, RunArrival 1 True,
      StopRunning,
      RunDoctor 0, RunDoctor 0, RunDoctor 0, RunDoctor 0, RunDoctor 0, RunDoctor 0, RunDoctor 0,
      RunDoctor 2, RunDoctor 2, RunDoctor 2, RunDoctor 2, RunDoctor 2, RunDoctor 2,
      RunDoctor 2, RunDoctor 2, RunDoctor 2, RunDoctor 2, RunDoctor 2,
      RunDoctor 1, RunDoctor 1, RunDoctor 1, RunDoctor 1, RunDoctor 1, RunDoctor 1, RunDoctor 1]"

text \<open>The order in which the three mandatory resources are to be taken.\<close>

definition acquisition_order :: "resource list" where
  "acquisition_order = [Doctor, Nurse, ExamRoom]"

text \<open>
  The units a thread holds after a record of its events, and the patient it took off the
  queue last.
\<close>

fun hold :: "resource multiset \<Rightarrow> event \<Rightarrow> resource multiset" where
  "hold m (Acquired r) = add_mset r m"
| "hold m (TryAcquired r b) = (if b then add_mset r m else m)"
| "hold m (Released r) = m - {#r#}"
| "hold m (Dequeued p) = m"

definition holding :: "event list \<Rightarrow> resource multiset" where
  "holding es = foldl hold {#} es"

fun current :: "Patient option \<Rightarrow> event \<Rightarrow> Patient option" where
  "current c (Dequeued p) = Some p"
| "current c e = c"

definition current_patient :: "event list \<Rightarrow> Patient option" where
  "current_patient es = foldl current None es"

text \<open>
  What an event says about the semaphores. \<open>pool_counts\<close> reads the four counts of a
  state. \<open>event_effect\<close> is the change an event stands for: an acquisition takes one
  unit from the pool it names, a release gives one back, a failed attempt and a dequeue
  change no count. \<open>event_enabled\<close> is what the event says of the count it found:
  positive for a blocking acquisition, positive exactly when the attempt succeeded, below
  \<^verbatim>\<open>INT_MAX\<close> for a release.
\<close>

definition pool_counts :: "Hospital \<Rightarrow> resource \<Rightarrow> cint" where
  "pool_counts h r =
     (case r of
        Doctor \<Rightarrow> count (doctorsAvailable h)
      | Nurse \<Rightarrow> count (nursesAvailable h)
      | ExamRoom \<Rightarrow> count (examRoomsAvailable h)
      | Ventilator \<Rightarrow> count (ventilatorsAvailable h))"

fun event_effect :: "(resource \<Rightarrow> cint) \<Rightarrow> event \<Rightarrow> (resource \<Rightarrow> cint)" where
  "event_effect c (Dequeued p) = c"
| "event_effect c (Acquired r) = c(r := c r - 1)"
| "event_effect c (TryAcquired r b) = (if b then c(r := c r - 1) else c)"
| "event_effect c (Released r) = c(r := c r + 1)"

fun event_enabled :: "(resource \<Rightarrow> cint) \<Rightarrow> event \<Rightarrow> bool" where
  "event_enabled c (Dequeued p) = True"
| "event_enabled c (Acquired r) = (0 <s c r)"
| "event_enabled c (TryAcquired r b) = (b = (0 <s c r))"
| "event_enabled c (Released r) = (c r \<noteq> INT_MAX)"

text \<open>
  What one complete treatment of patient \<open>p\<close> is expected to leave behind: the events
  (\<open>v\<close> says whether a ventilator was allocated) and the lines on the console.
\<close>

definition cycle_events :: "Patient \<Rightarrow> bool \<Rightarrow> event list" where
  "cycle_events p v =
     [Dequeued p, Acquired Doctor, Acquired Nurse, Acquired ExamRoom] @
     (if priority p = HIGH then [TryAcquired Ventilator v] else []) @
     (if v then [Released Ventilator] else []) @
     [Released Doctor, Released Nurse, Released ExamRoom]"

definition cycle_console :: "cint \<Rightarrow> Hospital \<Rightarrow> Patient \<Rightarrow> bool \<Rightarrow> console_line list" where
  "cycle_console doctorId h p v =
     (if priority p = HIGH \<and> \<not> v
      then [Line (''Ventilator unavailable for '' @ name p)] else []) @
     [Row ''Doctor'' doctorId (name p) (priorityToString (priority p)) ''Treating...''
        (available (doctorsAvailable h) - 1) (available (nursesAvailable h) - 1)
        (available (examRoomsAvailable h) - 1)
        (if v then available (ventilatorsAvailable h) - 1 else available (ventilatorsAvailable h)),
      Row ''Doctor'' doctorId (name p) (priorityToString (priority p)) ''Finished''
        (available (doctorsAvailable h)) (available (nursesAvailable h))
        (available (examRoomsAvailable h)) (available (ventilatorsAvailable h))]"

subsection \<open>Control points and holdings\<close>

text \<open>
  Functions of the control point, used to follow a doctor thread through its steps: how many
  of the three mandatory acquisitions of the current cycle are done, which units the
  thread holds, and which patient it is treating while it acquires.
\<close>

fun phase :: "doctor_pc \<Rightarrow> nat" where
  "phase (AcquireNurse p) = 1"
| "phase (AcquireRoom p) = 2"
| "phase pc = 0"

fun held_at :: "doctor_pc \<Rightarrow> resource multiset" where
  "held_at (AcquireNurse p) = {#Doctor#}"
| "held_at (AcquireRoom p) = {#Doctor, Nurse#}"
| "held_at (TryVentilator p) = {#Doctor, Nurse, ExamRoom#}"
| "held_at (ShowTreating p v) =
     (if v then {#Doctor, Nurse, ExamRoom, Ventilator#} else {#Doctor, Nurse, ExamRoom#})"
| "held_at (Treating p v) =
     (if v then {#Doctor, Nurse, ExamRoom, Ventilator#} else {#Doctor, Nurse, ExamRoom#})"
| "held_at (ReleaseVentilator p v) =
     (if v then {#Doctor, Nurse, ExamRoom, Ventilator#} else {#Doctor, Nurse, ExamRoom#})"
| "held_at (ReleaseDoctor p) = {#Doctor, Nurse, ExamRoom#}"
| "held_at (ReleaseNurse p) = {#Nurse, ExamRoom#}"
| "held_at (ReleaseRoom p) = {#ExamRoom#}"
| "held_at pc = {#}"

fun patient_at :: "doctor_pc \<Rightarrow> Patient option" where
  "patient_at (AcquireDoctor p) = Some p"
| "patient_at (AcquireNurse p) = Some p"
| "patient_at (AcquireRoom p) = Some p"
| "patient_at (TryVentilator p) = Some p"
| "patient_at pc = None"

definition agrees :: "Patient option \<Rightarrow> doctor_pc \<Rightarrow> bool" where
  "agrees c pc = (case patient_at pc of None \<Rightarrow> True | Some p \<Rightarrow> c = Some p)"

section \<open>Properties\<close>

subsection \<open>Machine integers\<close>

lemma sint_INT_MAX: "sint INT_MAX = 2147483647"
  by (simp add: INT_MAX_def)

lemma sint_range: "- 2147483648 \<le> sint (c :: cint)" "sint (c :: cint) \<le> 2147483647"
  using sint_ge [of c] sint_lt [of c] by simp_all

lemma sint_eq_INT_MAX: "(c :: cint) = INT_MAX \<longleftrightarrow> sint c = 2147483647"
proof
  assume "c = INT_MAX"
  then show "sint c = 2147483647" by (simp add: sint_INT_MAX)
next
  assume "sint c = 2147483647"
  then have "sint c = sint INT_MAX" by (simp add: sint_INT_MAX)
  then show "c = INT_MAX" by (rule signed_word_eqI)
qed

lemma sint_succ: "(c :: cint) \<noteq> INT_MAX \<Longrightarrow> sint (c + 1) = sint c + 1"
  using sint_range [of c]
  by (simp add: sint_eq_INT_MAX sint_word_ariths signed_take_bit_int_eq_self)

lemma sint_pred: "0 <s (c :: cint) \<Longrightarrow> sint (c - 1) = sint c - 1"
  using sint_range [of c]
  by (simp add: word_sless_alt sint_word_ariths signed_take_bit_int_eq_self)

lemma pred_not_INT_MAX: "0 <s (c :: cint) \<Longrightarrow> c - 1 \<noteq> INT_MAX"
  using sint_range [of c] by (simp add: sint_eq_INT_MAX sint_pred)

subsection \<open>The order of the admission queue\<close>

lemma priority_value_inj: "priority_value a = priority_value b \<Longrightarrow> a = b"
  by (cases a; cases b) simp_all

lemma ComparePatient_key: "ComparePatient a b \<longleftrightarrow> patient_key b < patient_key a"
proof (cases "priority a = priority b")
  case True
  then show ?thesis
    by (simp add: ComparePatient_def patient_key_def word_sless_alt)
next
  case False
  then have "priority_value (priority a) \<noteq> priority_value (priority b)"
    using priority_value_inj by blast
  with False show ?thesis
    by (auto simp: ComparePatient_def patient_key_def)
qed

lemma top_from_mem: "top_from b xs \<in> set (b # xs)"
  by (induction xs arbitrary: b) auto

lemma top_from_least: "y \<in> set (b # xs) \<Longrightarrow> patient_key (top_from b xs) \<le> patient_key y"
proof (induction xs arbitrary: b y)
  case Nil
  then show ?case by simp
next
  case (Cons x xs)
  let ?b = "if ComparePatient b x then x else b"
  have step: "patient_key ?b \<le> patient_key b" "patient_key ?b \<le> patient_key x"
    by (auto simp: ComparePatient_key)
  have top: "top_from b (x # xs) = top_from ?b xs"
    by simp
  have "patient_key (top_from ?b xs) \<le> patient_key ?b"
    using Cons.IH [where b = ?b and y = ?b] by (simp del: top_from.simps)
  moreover have "y \<in> set xs \<Longrightarrow> patient_key (top_from ?b xs) \<le> patient_key y"
    using Cons.IH [where b = ?b and y = y] by (simp del: top_from.simps)
  ultimately show ?case
    unfolding top using Cons.prems step by auto
qed

lemma top_Some_mem: "top q = Some t \<Longrightarrow> t \<in> set q"
  using top_from_mem by (auto simp: top_def split: list.splits)

lemma top_Some_least: "top q = Some t \<Longrightarrow> y \<in> set q \<Longrightarrow> patient_key t \<le> patient_key y"
  using top_from_least by (auto simp: top_def split: list.splits)

lemma top_None: "top q = None \<longleftrightarrow> q = []"
  by (simp add: top_def split: list.splits)

lemma pop_Some: "top q = Some t \<Longrightarrow> pop q = Some (remove1 t q)"
  by (simp add: pop_def)

lemma dequeue_all_Nil: "top q = None \<Longrightarrow> dequeue_all q = []"
  by (subst dequeue_all.simps) simp

lemma dequeue_all_Cons: "top q = Some t \<Longrightarrow> dequeue_all q = t # dequeue_all (remove1 t q)"
  by (subst dequeue_all.simps) (simp add: pop_Some)

lemma mset_dequeue_all: "mset (dequeue_all q) = mset q"
proof (induction q rule: dequeue_all.induct)
  case (1 q)
  show ?case
  proof (cases "top q")
    case None
    then have "q = []"
      by (simp add: top_None)
    with None show ?thesis
      by (simp add: dequeue_all_Nil)
  next
    case (Some t)
    then have "t \<in> set q" by (rule top_Some_mem)
    with "1.IH" [OF Some pop_Some [OF Some]] show ?thesis
      by (simp add: dequeue_all_Cons [OF Some])
  qed
qed

lemma set_dequeue_all: "set (dequeue_all q) = set q"
  using mset_dequeue_all [of q] by (metis set_mset_mset)

lemma sorted_dequeue_all: "sorted (map patient_key (dequeue_all q))"
proof (induction q rule: dequeue_all.induct)
  case (1 q)
  show ?case
  proof (cases "top q")
    case None
    then show ?thesis
      by (simp add: dequeue_all_Nil)
  next
    case (Some t)
    have "\<forall>y \<in> set (dequeue_all (remove1 t q)). patient_key t \<le> patient_key y"
      using top_Some_least [OF Some] set_remove1_subset [of t q]
      by (auto simp: set_dequeue_all)
    with "1.IH" [OF Some pop_Some [OF Some]] show ?thesis
      by (simp add: dequeue_all_Cons [OF Some])
  qed
qed

lemma foldl_push: "foldl push q xs = q @ xs"
  by (induction xs arbitrary: q) (simp_all add: push_def)

lemma patient_key_inj_on:
  assumes "distinct (map Patient.id xs)"
  shows "inj_on patient_key (set xs)"
proof (rule inj_onI)
  fix a b
  assume ab: "a \<in> set xs" "b \<in> set xs" and "patient_key a = patient_key b"
  then have "sint (Patient.id a) = sint (Patient.id b)"
    by (simp add: patient_key_def)
  then have "Patient.id a = Patient.id b"
    by (rule signed_word_eqI)
  with assms ab show "a = b"
    by (meson distinct_map inj_onD)
qed

lemma dequeue_all_sort_key:
  assumes "distinct (map Patient.id xs)"
  shows "dequeue_all xs = sort_key patient_key xs"
proof -
  have inj: "inj_on patient_key (set xs)"
    using assms by (rule patient_key_inj_on)
  have dist: "distinct xs"
    using assms by (simp add: distinct_map)
  let ?ys = "dequeue_all xs" and ?zs = "sort_key patient_key xs"
  have "distinct ?ys"
    using mset_eq_imp_distinct_iff [OF mset_dequeue_all [of xs]] dist by simp
  then have d1: "distinct (map patient_key ?ys)"
    using inj by (simp add: distinct_map set_dequeue_all)
  have d2: "distinct (map patient_key ?zs)"
    using inj dist by (simp add: distinct_map)
  have "map patient_key ?ys = map patient_key ?zs"
    by (rule sorted_distinct_set_unique) (simp_all add: sorted_dequeue_all d1 d2 set_dequeue_all)
  moreover have "inj_on patient_key (set ?ys \<union> set ?zs)"
    using inj by (simp add: set_dequeue_all)
  ultimately show ?thesis
    by (rule inj_on_map_eq_map [THEN iffD1, rotated])
qed

lemma insort_key_priority:
  assumes "\<forall>y \<in> set ys. Patient.id x <s Patient.id y"
  shows "insort_key patient_key x ys = insort_key (\<lambda>p. priority_value (priority p)) x ys"
  using assms
proof (induction ys)
  case Nil
  then show ?case by simp
next
  case (Cons y ys)
  then have "sint (Patient.id x) < sint (Patient.id y)"
    by (simp add: word_sless_alt)
  then have "patient_key x \<le> patient_key y \<longleftrightarrow>
      priority_value (priority x) \<le> priority_value (priority y)"
    by (auto simp: patient_key_def)
  with Cons show ?case
    by simp
qed

lemma sort_key_priority:
  "sorted_wrt (\<lambda>a b. Patient.id a <s Patient.id b) xs \<Longrightarrow>
   sort_key patient_key xs = sort_key (\<lambda>p. priority_value (priority p)) xs"
proof (induction xs)
  case Nil
  then show ?case by simp
next
  case (Cons x xs)
  then have "\<forall>y \<in> set (sort_key (\<lambda>p. priority_value (priority p)) xs).
      Patient.id x <s Patient.id y"
    by simp
  from insort_key_priority [OF this] Cons show ?case
    by simp
qed

lemma increasing_ids_distinct:
  "sorted_wrt (\<lambda>a b. Patient.id a <s Patient.id b) xs \<Longrightarrow>
   distinct (map Patient.id xs)"
  by (induction xs) (auto simp: word_sless_alt)

text \<open>
  C1. Patients are pushed in any order and then taken off the queue until it is empty. The
  arrival sequence of a patient is its \<open>id\<close>. The patients leave in an order that has
  every pushed patient once and is sorted by priority value (HIGH, MEDIUM, LOW) and, among
  equal priorities, by id ascending. When the ids are distinct this order is the sorted
  list itself. When the ids also increase in the order of the pushes, as they do for the
  one thread that creates patients, it is the stable sort of the arrivals by priority.
\<close>

theorem dequeue_order_is_sorted:
  "mset (dequeue_all (foldl push [] xs)) = mset xs \<and>
   sorted (map patient_key (dequeue_all (foldl push [] xs))) \<and>
   (distinct (map Patient.id xs) \<longrightarrow>
      dequeue_all (foldl push [] xs) = sort_key patient_key xs) \<and>
   (sorted_wrt (\<lambda>a b. Patient.id a <s Patient.id b) xs \<longrightarrow>
      dequeue_all (foldl push [] xs) = sort_key (\<lambda>p. priority_value (priority p)) xs)"
  using sort_key_priority [of xs] increasing_ids_distinct [of xs]
  by (simp add: foldl_push dequeue_all_sort_key mset_dequeue_all sorted_dequeue_all)

theorem dequeue_order_is_sorted_witness:
  "distinct (map Patient.id
     [\<lparr>id = 1, name = ''Patient_1'', priority = LOW\<rparr>,
      \<lparr>id = 2, name = ''Patient_2'', priority = HIGH\<rparr>,
      \<lparr>id = 3, name = ''Patient_3'', priority = MEDIUM\<rparr>]) \<and>
   sorted_wrt (\<lambda>a b. Patient.id a <s Patient.id b)
     [\<lparr>id = 1, name = ''Patient_1'', priority = LOW\<rparr>,
      \<lparr>id = 2, name = ''Patient_2'', priority = HIGH\<rparr>,
      \<lparr>id = 3, name = ''Patient_3'', priority = MEDIUM\<rparr>] \<and>
   dequeue_all (foldl push []
     [\<lparr>id = 1, name = ''Patient_1'', priority = LOW\<rparr>,
      \<lparr>id = 2, name = ''Patient_2'', priority = HIGH\<rparr>,
      \<lparr>id = 3, name = ''Patient_3'', priority = MEDIUM\<rparr>]) =
     [\<lparr>id = 2, name = ''Patient_2'', priority = HIGH\<rparr>,
      \<lparr>id = 3, name = ''Patient_3'', priority = MEDIUM\<rparr>,
      \<lparr>id = 1, name = ''Patient_1'', priority = LOW\<rparr>]"
  using dequeue_order_is_sorted
    [of "[\<lparr>id = 1, name = ''Patient_1'', priority = LOW\<rparr>,
          \<lparr>id = 2, name = ''Patient_2'', priority = HIGH\<rparr>,
          \<lparr>id = 3, name = ''Patient_3'', priority = MEDIUM\<rparr>]"]
  by (simp add: patient_key_def word_sless_alt)

subsection \<open>The non-blocking acquire\<close>

text \<open>
  C6. \<open>try_acquire\<close> is a total function of the count (it has no outcome in which it
  waits). It reports success exactly when the count is positive at the call; then the count
  goes down by exactly one. Otherwise it reports failure and returns the semaphore as it
  was; in particular it fails when the count is 0.
\<close>

theorem try_acquire_succeeds_iff_available:
  "(fst (try_acquire s) \<longleftrightarrow> 0 <s available s) \<and>
   (0 <s available s \<longrightarrow>
      snd (try_acquire s) = s\<lparr>count := count s - 1\<rparr> \<and>
      sint (available (snd (try_acquire s))) = sint (available s) - 1) \<and>
   (\<not> 0 <s available s \<longrightarrow> snd (try_acquire s) = s) \<and>
   (available s = 0 \<longrightarrow> \<not> fst (try_acquire s))"
  by (simp add: try_acquire_def available_def sint_pred)

theorem try_acquire_succeeds_iff_available_witness:
  "0 <s available (Semaphore 1) \<and> try_acquire (Semaphore 1) = (True, Semaphore 0) \<and>
   available (Semaphore 0) = 0 \<and> try_acquire (Semaphore 0) = (False, Semaphore 0)"
  using try_acquire_succeeds_iff_available [of "Semaphore 1"]
    try_acquire_succeeds_iff_available [of "Semaphore 0"]
  by (simp add: available_def Semaphore_def word_sless_alt prod_eq_iff)

subsection \<open>Acquire and release\<close>

lemma acquire_release_once:
  "0 <s count s \<Longrightarrow> acquire s = Inr (s\<lparr>count := count s - 1\<rparr>) \<and>
     release (s\<lparr>count := count s - 1\<rparr>) = Inr s"
  by (simp add: acquire_def release_def pred_not_INT_MAX)

text \<open>
  C7. \<open>n\<close> sequential pairs of \<open>acquire\<close> followed by \<open>release\<close>, started with a
  positive count (so that every \<open>acquire\<close> finds its condition true), all return and leave
  the semaphore with the count it started with.
\<close>

theorem acquire_release_round_trip:
  "n = 0 \<or> 0 <s available s \<Longrightarrow> acquire_release n s = Inr s"
  by (induction n) (auto simp: available_def acquire_release_once)

theorem acquire_release_round_trip_witness:
  "0 <s available (Semaphore 3) \<and> acquire_release 5 (Semaphore 3) = Inr (Semaphore 3)"
  using acquire_release_round_trip [of 5 "Semaphore 3"]
  by (simp add: available_def Semaphore_def word_sless_alt)

subsection \<open>The bounds of a pool\<close>

lemma apply_op_nonneg:
  "apply_op x t = Inr t' \<Longrightarrow> 0 \<le> sint (count (pool t)) \<Longrightarrow> 0 \<le> sint (count (pool t'))"
  by (cases x)
    (auto simp: acquire_def release_def try_acquire_def sint_pred sint_succ word_sless_alt
      split: if_splits)

lemma apply_op_books:
  assumes "apply_op x t = Inr t'" "x \<noteq> Release_op \<or> 0 < held t"
    and "sint (count (pool t)) + int (held t) = capacity t"
  shows "sint (count (pool t')) + int (held t') = capacity t'"
  using assms
  by (cases x)
    (auto simp: acquire_def release_def try_acquire_def sint_pred sint_succ
      split: if_splits)

lemma snapshots_nonneg:
  "0 \<le> sint (count (pool t)) \<Longrightarrow> u \<in> set (snapshots t ops) \<Longrightarrow> 0 \<le> sint (count (pool u))"
proof (induction ops arbitrary: t)
  case Nil
  then show ?case by simp
next
  case (Cons x xs)
  show ?case
  proof (cases "apply_op x t")
    case (Inl e)
    with Cons.prems show ?thesis by simp
  next
    case (Inr t')
    then have "0 \<le> sint (count (pool t'))"
      using Cons.prems(1) by (rule apply_op_nonneg)
    with Cons.prems Cons.IH [of t'] Inr show ?thesis by auto
  qed
qed

lemma snapshots_books:
  "sint (count (pool t)) + int (held t) = capacity t \<Longrightarrow> releases_held t ops \<Longrightarrow>
   u \<in> set (snapshots t ops) \<Longrightarrow> sint (count (pool u)) + int (held u) = capacity u"
proof (induction ops arbitrary: t)
  case Nil
  then show ?case by simp
next
  case (Cons x xs)
  show ?case
  proof (cases "apply_op x t")
    case (Inl e)
    with Cons.prems show ?thesis by simp
  next
    case (Inr t')
    have ok: "x \<noteq> Release_op \<or> 0 < held t" and rest: "releases_held t' xs"
      using Cons.prems(2) Inr by simp_all
    have "sint (count (pool t')) + int (held t') = capacity t'"
      using Inr ok Cons.prems(1) by (rule apply_op_books)
    with Cons.prems Cons.IH [of t'] Inr rest show ?thesis by auto
  qed
qed

text \<open>
  C3. A pool is constructed with a non-negative count, and a sequence of operations
  (acquire, try-acquire, release, and the growth of the capacity, which the program does by
  a release) runs on it. At every observable point the available count is not negative.
  When the sequence keeps the contract of release, that a caller gives back only a unit it
  holds, the available count plus the units held is the capacity at every observable
  point, so the available count is at most the capacity. A run ends at an operation that
  does not return: an acquire on an empty pool, or a release at \<^verbatim>\<open>INT_MAX\<close>, where
  \<^verbatim>\<open>++count\<close> is undefined.
\<close>

theorem pool_bounds:
  assumes "0 \<le>s n" and "t \<in> set (snapshots (new_pool n) ops)"
  shows "0 \<le> sint (available (pool t)) \<and>
    (releases_held (new_pool n) ops \<longrightarrow>
       sint (available (pool t)) + int (held t) = capacity t \<and>
       sint (available (pool t)) \<le> capacity t)"
proof -
  have start: "0 \<le> sint (count (pool (new_pool n)))"
    "sint (count (pool (new_pool n))) + int (held (new_pool n)) = capacity (new_pool n)"
    using assms(1) by (simp_all add: new_pool_def Semaphore_def word_sle_eq)
  have "0 \<le> sint (count (pool t))"
    using start(1) assms(2) by (rule snapshots_nonneg)
  moreover have "sint (count (pool t)) + int (held t) = capacity t"
    if "releases_held (new_pool n) ops"
    using start(2) that assms(2) by (rule snapshots_books)
  ultimately show ?thesis
    by (auto simp: available_def)
qed

theorem pool_bounds_witness:
  "0 \<le>s (1 :: cint) \<and>
   releases_held (new_pool 1) [Acquire_op, TryAcquire_op, Release_op, AdjustCapacity_op] \<and>
   snapshots (new_pool 1) [Acquire_op, TryAcquire_op, Release_op, AdjustCapacity_op] =
     [\<lparr>pool = Semaphore 1, capacity = 1, held = 0\<rparr>,
      \<lparr>pool = Semaphore 0, capacity = 1, held = 1\<rparr>,
      \<lparr>pool = Semaphore 0, capacity = 1, held = 1\<rparr>,
      \<lparr>pool = Semaphore 1, capacity = 1, held = 0\<rparr>,
      \<lparr>pool = Semaphore 2, capacity = 2, held = 0\<rparr>] \<and>
   sint (available (pool \<lparr>pool = Semaphore 2, capacity = 2, held = 0\<rparr>)) \<le>
     capacity \<lparr>pool = Semaphore 2, capacity = 2, held = 0\<rparr>"
  using pool_bounds [of 1 "\<lparr>pool = Semaphore 2, capacity = 2, held = 0\<rparr>"
      "[Acquire_op, TryAcquire_op, Release_op, AdjustCapacity_op]"]
  by (simp add: new_pool_def Semaphore_def acquire_def try_acquire_def release_def
      INT_MAX_def available_def word_sless_alt word_sle_eq)

subsection \<open>One treatment cycle\<close>

lemma acquire_pos: "0 <s count s \<Longrightarrow> acquire s = Inr (s\<lparr>count := count s - 1\<rparr>)"
  by (simp add: acquire_def)

lemma release_pred: "0 <s count s \<Longrightarrow> release (s\<lparr>count := count s - 1\<rparr>) = Inr s"
  by (simp add: release_def pred_not_INT_MAX)

lemma try_acquire_pos: "0 <s count s \<Longrightarrow> try_acquire s = (True, s\<lparr>count := count s - 1\<rparr>)"
  by (simp add: try_acquire_def)

lemma try_acquire_not_pos: "\<not> 0 <s count s \<Longrightarrow> try_acquire s = (False, s)"
  by (simp add: try_acquire_def)

lemma treatPatient_cycle:
  assumes run: "isRunning h" and lock: "\<not> queueMutex h"
    and top: "top (patientQueue h) = Some p"
    and d: "0 <s count (doctorsAvailable h)"
    and n: "0 <s count (nursesAvailable h)"
    and r: "0 <s count (examRoomsAvailable h)"
    and v: "v \<longleftrightarrow> priority p = HIGH \<and> 0 <s count (ventilatorsAvailable h)"
  shows "treatPatient_run doctorId 13 h LoopTest =
     Inr (cycle_events p v,
          h\<lparr>patientQueue := remove1 p (patientQueue h),
            console := console h @ cycle_console doctorId h p v\<rparr>,
          LoopTest)"
proof -
  have q: "patientQueue h \<noteq> []"
    using top by (auto simp: top_def)
  have 13: "(13 :: nat) = Suc (Suc (Suc (Suc (Suc (Suc (Suc (Suc (Suc (Suc (Suc (Suc (Suc 0))))))))))))"
    by simp
  show ?thesis
  proof (cases "priority p = HIGH")
    case False
    then show ?thesis
      using run lock top d n r v q unfolding 13
      by (simp add: pop_def acquire_pos release_pred displayState_def available_def
          cycle_events_def cycle_console_def)
  next
    case True
    show ?thesis
    proof (cases "0 <s count (ventilatorsAvailable h)")
      case True
      with \<open>priority p = HIGH\<close> show ?thesis
        using run lock top d n r v q unfolding 13
        by (simp add: pop_def acquire_pos release_pred try_acquire_pos displayState_def available_def
          cycle_events_def cycle_console_def)
    next
      case False
      with \<open>priority p = HIGH\<close> show ?thesis
        using run lock top d n r v q unfolding 13
        by (simp add: pop_def acquire_pos release_pred try_acquire_not_pos displayState_def available_def
          cycle_events_def cycle_console_def)
    qed
  qed
qed

lemma holding_cycle_events: "holding (cycle_events p v) = {#}"
  by (simp add: holding_def cycle_events_def)

text \<open>
  C10. A doctor thread runs one complete cycle alone, from the loop test back to the loop
  test, on a state that lets it through (the flag set, the queue's mutex free, \<open>p\<close> on top
  of the queue, a doctor, a nurse and a room available). The cycle returns; at its end the
  thread holds nothing (every unit it took, the ventilator included when one was allocated,
  is released), each of the four semaphores is what it was at the start, and so are the flag
  and the mutex. The queue has lost \<open>p\<close> and nothing else. The console has the cycle's
  lines added.
\<close>

theorem treatment_cycle_frame:
  assumes "isRunning h" and "\<not> queueMutex h" and "top (patientQueue h) = Some p"
    and "0 <s available (doctorsAvailable h)"
    and "0 <s available (nursesAvailable h)"
    and "0 <s available (examRoomsAvailable h)"
    and "v \<longleftrightarrow> priority p = HIGH \<and> 0 <s available (ventilatorsAvailable h)"
  shows "\<exists>h'. treatPatient_run doctorId 13 h LoopTest = Inr (cycle_events p v, h', LoopTest) \<and>
    holding (cycle_events p v) = {#} \<and>
    doctorsAvailable h' = doctorsAvailable h \<and>
    nursesAvailable h' = nursesAvailable h \<and>
    examRoomsAvailable h' = examRoomsAvailable h \<and>
    ventilatorsAvailable h' = ventilatorsAvailable h \<and>
    isRunning h' = isRunning h \<and> queueMutex h' = queueMutex h \<and>
    patientQueue h' = remove1 p (patientQueue h) \<and>
    Suc (length (patientQueue h')) = length (patientQueue h) \<and>
    console h' = console h @ cycle_console doctorId h p v"
proof -
  have "p \<in> set (patientQueue h)"
    using assms(3) by (rule top_Some_mem)
  then have "Suc (length (remove1 p (patientQueue h))) = length (patientQueue h)"
    using length_pos_if_in_set [of p "patientQueue h"] by (simp add: length_remove1)
  then show ?thesis
    using treatPatient_cycle [of h p v doctorId] assms
    by (simp add: available_def holding_cycle_events)
qed

theorem treatment_cycle_frame_witness:
  "isRunning (initial_hospital\<lparr>patientQueue :=
       [\<lparr>id = 1, name = ''Patient_1'', priority = LOW\<rparr>,
        \<lparr>id = 2, name = ''Patient_2'', priority = HIGH\<rparr>]\<rparr>) \<and>
   top [\<lparr>id = 1, name = ''Patient_1'', priority = LOW\<rparr>,
        \<lparr>id = 2, name = ''Patient_2'', priority = HIGH\<rparr>] =
     Some \<lparr>id = 2, name = ''Patient_2'', priority = HIGH\<rparr> \<and>
   (\<exists>h'. treatPatient_run 1 13
       (initial_hospital\<lparr>patientQueue :=
         [\<lparr>id = 1, name = ''Patient_1'', priority = LOW\<rparr>,
          \<lparr>id = 2, name = ''Patient_2'', priority = HIGH\<rparr>]\<rparr>) LoopTest =
       Inr ([Dequeued \<lparr>id = 2, name = ''Patient_2'', priority = HIGH\<rparr>,
             Acquired Doctor, Acquired Nurse, Acquired ExamRoom,
             TryAcquired Ventilator True, Released Ventilator,
             Released Doctor, Released Nurse, Released ExamRoom], h', LoopTest) \<and>
     doctorsAvailable h' = Semaphore 3 \<and> nursesAvailable h' = Semaphore 2 \<and>
     examRoomsAvailable h' = Semaphore 2 \<and> ventilatorsAvailable h' = Semaphore 1 \<and>
     patientQueue h' = [\<lparr>id = 1, name = ''Patient_1'', priority = LOW\<rparr>])"
  using treatment_cycle_frame
    [of "initial_hospital\<lparr>patientQueue :=
           [\<lparr>id = 1, name = ''Patient_1'', priority = LOW\<rparr>,
            \<lparr>id = 2, name = ''Patient_2'', priority = HIGH\<rparr>]\<rparr>"
        "\<lparr>id = 2, name = ''Patient_2'', priority = HIGH\<rparr>" True 1]
  by (auto simp: initial_hospital_def top_def ComparePatient_def available_def Semaphore_def
      word_sless_alt cycle_events_def)

subsection \<open>The order of acquisition\<close>

lemma acquisitions_append: "acquisitions (xs @ ys) = acquisitions xs @ acquisitions ys"
  by (induction xs rule: acquisitions.induct) simp_all

lemma phase_less: "phase pc < 3"
  by (cases pc) simp_all

lemma step_phase:
  assumes "treatPatient_step i h pc = Inr (es, h', pc')"
  shows "(acquisitions es = [] \<and> phase pc' = phase pc) \<or>
         (acquisitions es = [acquisition_order ! phase pc] \<and> phase pc' = Suc (phase pc) mod 3)"
  using assms
  by (cases pc)
    (auto simp: acquisition_order_def split: if_splits sum.splits option.splits prod.splits bool.splits)

lemma trace_order:
  "k < length (acquisitions (treatPatient_trace i hs pc)) \<Longrightarrow>
   acquisitions (treatPatient_trace i hs pc) ! k = acquisition_order ! ((phase pc + k) mod 3)"
proof (induction hs arbitrary: pc k)
  case Nil
  then show ?case by simp
next
  case (Cons h hs)
  show ?case
  proof (cases "treatPatient_step i h pc")
    case (Inl e)
    with Cons show ?thesis
      by (cases e) simp_all
  next
    case (Inr res)
    obtain es h' pc' where res: "res = (es, h', pc')"
      by (cases res) auto
    have tr: "acquisitions (treatPatient_trace i (h # hs) pc) =
        acquisitions es @ acquisitions (treatPatient_trace i hs pc')"
      using Inr res by (simp add: acquisitions_append)
    from step_phase [OF Inr [unfolded res]] show ?thesis
    proof
      assume a: "acquisitions es = [] \<and> phase pc' = phase pc"
      with Cons.prems tr Cons.IH [of k pc'] show ?thesis
        by simp
    next
      assume a: "acquisitions es = [acquisition_order ! phase pc] \<and> phase pc' = Suc (phase pc) mod 3"
      show ?thesis
      proof (cases k)
        case 0
        with a tr phase_less [of pc] show ?thesis by simp
      next
        case (Suc j)
        with Cons.prems tr a have "j < length (acquisitions (treatPatient_trace i hs pc'))"
          by simp
        from Cons.IH [OF this] a tr Suc show ?thesis
          by (simp add: mod_Suc_eq mod_add_left_eq)
      qed
    qed
  qed
qed

lemma step_books:
  assumes "treatPatient_step i h pc = Inr (es, h', pc')" and "agrees c pc"
  shows "foldl hold (held_at pc) es = held_at pc' \<and> agrees (foldl current c es) pc' \<and>
         (es = [] \<or> (\<exists>e. es = [e]))"
  using assms
  by (cases pc)
    (auto simp: agrees_def split: if_splits sum.splits option.splits prod.splits bool.splits)

lemma step_acquired:
  assumes "treatPatient_step i h pc = Inr ([e], h', pc')"
  shows "\<forall>r. e = Acquired r \<longrightarrow>
     held_at pc = mset (takeWhile (\<lambda>x. x \<noteq> r) acquisition_order) \<and> r \<in> set acquisition_order"
  using assms
  by (cases pc)
    (auto simp: acquisition_order_def split: if_splits sum.splits option.splits prod.splits bool.splits)

lemma step_ventilator:
  assumes "treatPatient_step i h pc = Inr ([e], h', pc')" and "agrees c pc"
  shows "ventilator_attempt e \<longrightarrow>
     (\<exists>b. e = TryAcquired Ventilator b) \<and> held_at pc = {#Doctor, Nurse, ExamRoom#} \<and>
     (\<exists>p. c = Some p \<and> priority p = HIGH)"
  using assms
  by (cases pc)
    (auto simp: agrees_def split: if_splits sum.splits option.splits prod.splits bool.splits)

lemma step_released:
  assumes "treatPatient_step i h pc = Inr ([e], h', pc')"
  shows "e = Released Ventilator \<longrightarrow> Ventilator \<in># held_at pc"
  using assms
  by (cases pc) (auto split: if_splits sum.splits option.splits prod.splits bool.splits)

text \<open>
  A property of an event, of the units held just before it and of the patient taken last,
  that holds at every single step, holds at every position of a record.
\<close>

lemma trace_step_property:
  assumes step: "\<And>h pc e h' pc' c.
      treatPatient_step i h pc = Inr ([e], h', pc') \<Longrightarrow> agrees c pc \<Longrightarrow> Q e (held_at pc) c"
    and "agrees c pc" and "k < length (treatPatient_trace i hs pc)"
  shows "Q (treatPatient_trace i hs pc ! k)
           (foldl hold (held_at pc) (take k (treatPatient_trace i hs pc)))
           (foldl current c (take k (treatPatient_trace i hs pc)))"
  using assms(2,3)
proof (induction hs arbitrary: pc k c)
  case Nil
  then show ?case by simp
next
  case (Cons h hs)
  show ?case
  proof (cases "treatPatient_step i h pc")
    case (Inl e)
    with Cons show ?thesis
      by (cases e) simp_all
  next
    case (Inr res)
    obtain es h' pc' where res: "res = (es, h', pc')"
      by (cases res) auto
    let ?t' = "treatPatient_trace i hs pc'"
    have tr: "treatPatient_trace i (h # hs) pc = es @ ?t'"
      using Inr res by simp
    have st: "treatPatient_step i h pc = Inr (es, h', pc')"
      using Inr res by simp
    note books = step_books [OF st Cons.prems(1)]
    show ?thesis
    proof (cases "k < length es")
      case True
      with books obtain e where es: "es = [e]" and k: "k = 0"
        by auto
      show ?thesis
        unfolding tr es k
        using step [OF st [unfolded es] Cons.prems(1)] by simp
    next
      case False
      then have k: "k - length es < length ?t'"
        using Cons.prems(2) tr by auto
      have nth: "(es @ ?t') ! k = ?t' ! (k - length es)"
        using False by (simp add: nth_append)
      have tk: "take k (es @ ?t') = es @ take (k - length es) ?t'"
        using False by simp
      from Cons.IH [OF conjunct1 [OF conjunct2 [OF books]] k]
      show ?thesis
        unfolding tr nth tk using books by simp
    qed
  qed
qed

lemma trace_acquired:
  assumes "k < length (treatPatient_trace i hs LoopTest)"
    and "treatPatient_trace i hs LoopTest ! k = Acquired r"
  shows "r \<in> set acquisition_order \<and>
    holding (take k (treatPatient_trace i hs LoopTest)) =
      mset (takeWhile (\<lambda>x. x \<noteq> r) acquisition_order)"
  using trace_step_property
    [where Q = "\<lambda>e m c. \<forall>r. e = Acquired r \<longrightarrow>
        m = mset (takeWhile (\<lambda>x. x \<noteq> r) acquisition_order) \<and> r \<in> set acquisition_order"
      and c = None and pc = LoopTest, OF step_acquired _ assms(1)] assms(2)
  by (simp add: agrees_def holding_def)

lemma trace_ventilator:
  assumes "k < length (treatPatient_trace i hs LoopTest)"
    and "ventilator_attempt (treatPatient_trace i hs LoopTest ! k)"
  shows "(\<exists>b. treatPatient_trace i hs LoopTest ! k = TryAcquired Ventilator b) \<and>
    holding (take k (treatPatient_trace i hs LoopTest)) = {#Doctor, Nurse, ExamRoom#} \<and>
    (\<exists>q. current_patient (take k (treatPatient_trace i hs LoopTest)) = Some q \<and>
         priority q = HIGH)"
  using trace_step_property
    [where Q = "\<lambda>e m c. ventilator_attempt e \<longrightarrow>
        (\<exists>b. e = TryAcquired Ventilator b) \<and> m = {#Doctor, Nurse, ExamRoom#} \<and>
        (\<exists>p. c = Some p \<and> priority p = HIGH)"
      and c = None and pc = LoopTest, OF step_ventilator _ assms(1)] assms(2)
  by (simp add: agrees_def holding_def current_patient_def)

lemma trace_released:
  assumes "k < length (treatPatient_trace i hs LoopTest)"
    and "treatPatient_trace i hs LoopTest ! k = Released Ventilator"
  shows "Ventilator \<in># holding (take k (treatPatient_trace i hs LoopTest))"
  using trace_step_property
    [where Q = "\<lambda>e m c. e = Released Ventilator \<longrightarrow> Ventilator \<in># m"
      and c = None and pc = LoopTest, OF step_released _ assms(1)] assms(2)
  by (simp add: agrees_def holding_def)

text \<open>
  Every step does to the semaphores what its events say, and nothing else: the record of a
  thread is a record of what happened to the pools.
\<close>

lemma pool_counts_eqI:
  assumes "f Doctor = g Doctor" "f Nurse = g Nurse" "f ExamRoom = g ExamRoom"
    "f Ventilator = g Ventilator"
  shows "f = (g :: resource \<Rightarrow> cint)"
proof
  fix r show "f r = g r"
    using assms by (cases r) simp_all
qed

lemma step_effect:
  assumes "treatPatient_step i h pc = Inr (es, h', pc')"
  shows "pool_counts h' = foldl event_effect (pool_counts h) es \<and>
         (\<forall>e \<in> set es. event_enabled (pool_counts h) e)"
proof -
  have "pool_counts h' = foldl event_effect (pool_counts h) es"
    using assms
    by (intro pool_counts_eqI; cases pc)
      (auto simp: pool_counts_def acquire_def release_def try_acquire_def displayState_def
        split: if_splits sum.splits option.splits prod.splits bool.splits)
  moreover have "\<forall>e \<in> set es. event_enabled (pool_counts h) e"
    using assms
    by (cases pc)
      (auto simp: pool_counts_def acquire_def release_def try_acquire_def
        split: if_splits sum.splits option.splits prod.splits bool.splits)
  ultimately show ?thesis ..
qed

lemma step_touches_ventilator:
  assumes "treatPatient_step i h pc = Inr (es, h', pc')"
    and "ventilatorsAvailable h' \<noteq> ventilatorsAvailable h"
  shows "(\<exists>p. pc = TryVentilator p \<and> priority p = HIGH \<and> es = [TryAcquired Ventilator True] \<and>
              0 <s count (ventilatorsAvailable h) \<and>
              count (ventilatorsAvailable h') = count (ventilatorsAvailable h) - 1) \<or>
         (\<exists>p. pc = ReleaseVentilator p True \<and> es = [Released Ventilator] \<and>
              count (ventilatorsAvailable h') = count (ventilatorsAvailable h) + 1)"
  using assms
  by (cases pc)
    (auto simp: acquire_def release_def try_acquire_def displayState_def
      split: if_splits sum.splits option.splits prod.splits bool.splits)

lemma try_step:
  "treatPatient_step i g (TryVentilator p) =
     (if priority p \<noteq> HIGH then Inr ([], g, ShowTreating p False)
      else if 0 <s count (ventilatorsAvailable g) then
        Inr ([TryAcquired Ventilator True],
             g\<lparr>ventilatorsAvailable :=
                 (ventilatorsAvailable g)\<lparr>count := count (ventilatorsAvailable g) - 1\<rparr>\<rparr>,
             ShowTreating p True)
      else
        Inr ([TryAcquired Ventilator False],
             g\<lparr>console := console g @ [Line (''Ventilator unavailable for '' @ name p)]\<rparr>,
             ShowTreating p False))"
  by (simp add: try_acquire_def)

lemma acquire_steps:
  assumes "isRunning h" "\<not> queueMutex h" "top (patientQueue h) = Some p"
    and "0 <s count (doctorsAvailable h)" "0 <s count (nursesAvailable h)"
    and "0 <s count (examRoomsAvailable h)"
  shows "treatPatient_run i 3 h LoopTest =
      Inr ([Dequeued p, Acquired Doctor],
           h\<lparr>patientQueue := remove1 p (patientQueue h),
             doctorsAvailable := (doctorsAvailable h)\<lparr>count := count (doctorsAvailable h) - 1\<rparr>\<rparr>,
           AcquireNurse p)"
    and "treatPatient_run i 4 h LoopTest =
      Inr ([Dequeued p, Acquired Doctor, Acquired Nurse],
           h\<lparr>patientQueue := remove1 p (patientQueue h),
             doctorsAvailable := (doctorsAvailable h)\<lparr>count := count (doctorsAvailable h) - 1\<rparr>,
             nursesAvailable := (nursesAvailable h)\<lparr>count := count (nursesAvailable h) - 1\<rparr>\<rparr>,
           AcquireRoom p)"
    and "treatPatient_run i 5 h LoopTest =
      Inr ([Dequeued p, Acquired Doctor, Acquired Nurse, Acquired ExamRoom],
           h\<lparr>patientQueue := remove1 p (patientQueue h),
             doctorsAvailable := (doctorsAvailable h)\<lparr>count := count (doctorsAvailable h) - 1\<rparr>,
             nursesAvailable := (nursesAvailable h)\<lparr>count := count (nursesAvailable h) - 1\<rparr>,
             examRoomsAvailable :=
               (examRoomsAvailable h)\<lparr>count := count (examRoomsAvailable h) - 1\<rparr>\<rparr>,
           TryVentilator p)"
proof -
  have q: "patientQueue h \<noteq> []"
    using assms(3) by (auto simp: top_def)
  have n: "(3 :: nat) = Suc (Suc (Suc 0))" "(4 :: nat) = Suc (Suc (Suc (Suc 0)))"
    "(5 :: nat) = Suc (Suc (Suc (Suc (Suc 0))))"
    by simp_all
  show "treatPatient_run i 3 h LoopTest =
      Inr ([Dequeued p, Acquired Doctor],
           h\<lparr>patientQueue := remove1 p (patientQueue h),
             doctorsAvailable := (doctorsAvailable h)\<lparr>count := count (doctorsAvailable h) - 1\<rparr>\<rparr>,
           AcquireNurse p)"
    unfolding n using assms q by (simp add: pop_def acquire_def)
  show "treatPatient_run i 4 h LoopTest =
      Inr ([Dequeued p, Acquired Doctor, Acquired Nurse],
           h\<lparr>patientQueue := remove1 p (patientQueue h),
             doctorsAvailable := (doctorsAvailable h)\<lparr>count := count (doctorsAvailable h) - 1\<rparr>,
             nursesAvailable := (nursesAvailable h)\<lparr>count := count (nursesAvailable h) - 1\<rparr>\<rparr>,
           AcquireRoom p)"
    unfolding n using assms q by (simp add: pop_def acquire_def)
  show "treatPatient_run i 5 h LoopTest =
      Inr ([Dequeued p, Acquired Doctor, Acquired Nurse, Acquired ExamRoom],
           h\<lparr>patientQueue := remove1 p (patientQueue h),
             doctorsAvailable := (doctorsAvailable h)\<lparr>count := count (doctorsAvailable h) - 1\<rparr>,
             nursesAvailable := (nursesAvailable h)\<lparr>count := count (nursesAvailable h) - 1\<rparr>,
             examRoomsAvailable :=
               (examRoomsAvailable h)\<lparr>count := count (examRoomsAvailable h) - 1\<rparr>\<rparr>,
           TryVentilator p)"
    unfolding n using assms q by (simp add: pop_def acquire_def)
qed

text \<open>
  C5. A doctor thread starts at its loop test and runs among other threads, which may change
  the shared state in any way between its steps. In the record of its events, the blocking
  acquisitions are doctor, nurse, exam room, doctor, nurse, exam room and so on, for every
  thread alike; and at each blocking acquisition the thread holds exactly the resources
  that come earlier in this order: nothing when it takes a doctor, the doctor when it takes
  a nurse, the doctor and the nurse when it takes a room. The record is true to the
  semaphores: each step changes the four counts by what its events say (an acquisition of
  \<open>r\<close> finds the count of \<open>r\<close> positive and takes one unit from it) and by nothing else.
  In a cycle that runs alone, the state after the third step has one doctor less and the
  nurses and rooms as they were, after the fourth step one nurse less too, and after the
  fifth one room less.
\<close>

theorem acquisition_order_fixed:
  "(k < length (acquisitions (treatPatient_trace doctorId hs LoopTest)) \<longrightarrow>
      acquisitions (treatPatient_trace doctorId hs LoopTest) ! k = acquisition_order ! (k mod 3)) \<and>
   (j < length (treatPatient_trace doctorId hs LoopTest) \<and>
    treatPatient_trace doctorId hs LoopTest ! j = Acquired r \<longrightarrow>
      r \<in> set acquisition_order \<and>
      holding (take j (treatPatient_trace doctorId hs LoopTest)) =
        mset (takeWhile (\<lambda>x. x \<noteq> r) acquisition_order)) \<and>
   (treatPatient_step doctorId g pc = Inr (es, g', pc') \<longrightarrow>
      pool_counts g' = foldl event_effect (pool_counts g) es \<and>
      (\<forall>e \<in> set es. event_enabled (pool_counts g) e)) \<and>
   (isRunning h \<and> \<not> queueMutex h \<and> top (patientQueue h) = Some p \<and>
    0 <s available (doctorsAvailable h) \<and> 0 <s available (nursesAvailable h) \<and>
    0 <s available (examRoomsAvailable h) \<longrightarrow>
      treatPatient_run doctorId 3 h LoopTest =
        Inr ([Dequeued p, Acquired Doctor],
             h\<lparr>patientQueue := remove1 p (patientQueue h),
               doctorsAvailable :=
                 (doctorsAvailable h)\<lparr>count := count (doctorsAvailable h) - 1\<rparr>\<rparr>,
             AcquireNurse p) \<and>
      treatPatient_run doctorId 4 h LoopTest =
        Inr ([Dequeued p, Acquired Doctor, Acquired Nurse],
             h\<lparr>patientQueue := remove1 p (patientQueue h),
               doctorsAvailable :=
                 (doctorsAvailable h)\<lparr>count := count (doctorsAvailable h) - 1\<rparr>,
               nursesAvailable :=
                 (nursesAvailable h)\<lparr>count := count (nursesAvailable h) - 1\<rparr>\<rparr>,
             AcquireRoom p) \<and>
      treatPatient_run doctorId 5 h LoopTest =
        Inr ([Dequeued p, Acquired Doctor, Acquired Nurse, Acquired ExamRoom],
             h\<lparr>patientQueue := remove1 p (patientQueue h),
               doctorsAvailable :=
                 (doctorsAvailable h)\<lparr>count := count (doctorsAvailable h) - 1\<rparr>,
               nursesAvailable :=
                 (nursesAvailable h)\<lparr>count := count (nursesAvailable h) - 1\<rparr>,
               examRoomsAvailable :=
                 (examRoomsAvailable h)\<lparr>count := count (examRoomsAvailable h) - 1\<rparr>\<rparr>,
             TryVentilator p))"
  using trace_order [of k doctorId hs LoopTest] trace_acquired [of j doctorId hs r]
    step_effect [of doctorId g pc es g' pc'] acquire_steps [of h p doctorId]
  by (simp add: available_def)

theorem acquisition_order_fixed_witness:
  "treatPatient_trace 2
     [initial_hospital, initial_hospital,
      initial_hospital\<lparr>patientQueue := [\<lparr>id = 7, name = ''Patient_7'', priority = MEDIUM\<rparr>]\<rparr>,
      initial_hospital\<lparr>doctorsAvailable := Semaphore 0\<rparr>,
      initial_hospital, initial_hospital, initial_hospital] LoopTest =
     [Dequeued \<lparr>id = 7, name = ''Patient_7'', priority = MEDIUM\<rparr>,
      Acquired Doctor, Acquired Nurse, Acquired ExamRoom] \<and>
   acquisitions
     [Dequeued \<lparr>id = 7, name = ''Patient_7'', priority = MEDIUM\<rparr>,
      Acquired Doctor, Acquired Nurse, Acquired ExamRoom] ! 2 = ExamRoom \<and>
   holding
     [Dequeued \<lparr>id = 7, name = ''Patient_7'', priority = MEDIUM\<rparr>,
      Acquired Doctor, Acquired Nurse] = {#Doctor, Nurse#} \<and>
   treatPatient_step 2 initial_hospital
       (AcquireNurse \<lparr>id = 7, name = ''Patient_7'', priority = MEDIUM\<rparr>) =
     Inr ([Acquired Nurse], initial_hospital\<lparr>nursesAvailable := Semaphore 1\<rparr>,
          AcquireRoom \<lparr>id = 7, name = ''Patient_7'', priority = MEDIUM\<rparr>) \<and>
   pool_counts (initial_hospital\<lparr>nursesAvailable := Semaphore 1\<rparr>) Nurse = 1 \<and>
   pool_counts (initial_hospital\<lparr>nursesAvailable := Semaphore 1\<rparr>) ExamRoom = 2 \<and>
   treatPatient_run 2 4
       (initial_hospital\<lparr>patientQueue :=
          [\<lparr>id = 7, name = ''Patient_7'', priority = MEDIUM\<rparr>]\<rparr>) LoopTest =
     Inr ([Dequeued \<lparr>id = 7, name = ''Patient_7'', priority = MEDIUM\<rparr>,
           Acquired Doctor, Acquired Nurse],
          initial_hospital\<lparr>doctorsAvailable := Semaphore 2, nursesAvailable := Semaphore 1\<rparr>,
          AcquireRoom \<lparr>id = 7, name = ''Patient_7'', priority = MEDIUM\<rparr>)"
  using acquisition_order_fixed
    [where k = 2 and doctorId = 2 and j = 3 and r = ExamRoom
       and hs = "[initial_hospital, initial_hospital,
         initial_hospital\<lparr>patientQueue :=
           [\<lparr>id = 7, name = ''Patient_7'', priority = MEDIUM\<rparr>]\<rparr>,
         initial_hospital\<lparr>doctorsAvailable := Semaphore 0\<rparr>,
         initial_hospital, initial_hospital, initial_hospital]"
       and g = initial_hospital
       and pc = "AcquireNurse \<lparr>id = 7, name = ''Patient_7'', priority = MEDIUM\<rparr>"
       and es = "[Acquired Nurse]"
       and g' = "initial_hospital\<lparr>nursesAvailable := Semaphore 1\<rparr>"
       and pc' = "AcquireRoom \<lparr>id = 7, name = ''Patient_7'', priority = MEDIUM\<rparr>"
       and h = "initial_hospital\<lparr>patientQueue :=
           [\<lparr>id = 7, name = ''Patient_7'', priority = MEDIUM\<rparr>]\<rparr>"
       and p = "\<lparr>id = 7, name = ''Patient_7'', priority = MEDIUM\<rparr>"]
  by (simp add: initial_hospital_def top_def pop_def acquire_def Semaphore_def available_def
      word_sless_alt acquisition_order_def pool_counts_def)

text \<open>
  C4. In the record of a doctor thread that runs among other threads, every attempt to take
  a ventilator is a \<open>try_acquire\<close> (the blocking \<open>acquire\<close> is never used on that pool),
  it is made while the thread holds a doctor, a nurse and an exam room, and the patient
  taken off the queue last has priority HIGH. The record is true to the semaphores: each
  step changes the four counts by what its events say and by nothing else, and the only
  steps that change the ventilator's semaphore are the successful attempt for a patient of
  priority HIGH and the release by a thread that was allocated the ventilator. The step
  after the three acquisitions returns on every state: for a patient whose priority is not
  HIGH it leaves the state as it is and makes no attempt; for a HIGH patient it takes one
  unit when the count is positive, and otherwise changes nothing but the console. When the
  ventilator is not available, a cycle that runs alone still goes through: the console gets
  the line that the ventilator is unavailable, then the rows "Treating..." and "Finished",
  the three mandatory units are released and the thread is back at its loop test.
\<close>

theorem ventilator_best_effort:
  "(k < length (treatPatient_trace doctorId hs LoopTest) \<and>
    ventilator_attempt (treatPatient_trace doctorId hs LoopTest ! k) \<longrightarrow>
      (\<exists>b. treatPatient_trace doctorId hs LoopTest ! k = TryAcquired Ventilator b) \<and>
      holding (take k (treatPatient_trace doctorId hs LoopTest)) = {#Doctor, Nurse, ExamRoom#} \<and>
      (\<exists>q. current_patient (take k (treatPatient_trace doctorId hs LoopTest)) = Some q \<and>
           priority q = HIGH)) \<and>
   (treatPatient_step doctorId f pc = Inr (es, f', pc') \<longrightarrow>
      pool_counts f' = foldl event_effect (pool_counts f) es \<and>
      (\<forall>e \<in> set es. event_enabled (pool_counts f) e)) \<and>
   (treatPatient_step doctorId f pc = Inr (es, f', pc') \<and>
    ventilatorsAvailable f' \<noteq> ventilatorsAvailable f \<longrightarrow>
      (\<exists>q. pc = TryVentilator q \<and> priority q = HIGH \<and> es = [TryAcquired Ventilator True] \<and>
           0 <s count (ventilatorsAvailable f) \<and>
           count (ventilatorsAvailable f') = count (ventilatorsAvailable f) - 1) \<or>
      (\<exists>q. pc = ReleaseVentilator q True \<and> es = [Released Ventilator] \<and>
           count (ventilatorsAvailable f') = count (ventilatorsAvailable f) + 1)) \<and>
   \<not> isl (treatPatient_step doctorId g (TryVentilator p)) \<and>
   treatPatient_step doctorId g (TryVentilator p) =
     (if priority p \<noteq> HIGH then Inr ([], g, ShowTreating p False)
      else if 0 <s count (ventilatorsAvailable g) then
        Inr ([TryAcquired Ventilator True],
             g\<lparr>ventilatorsAvailable :=
                 (ventilatorsAvailable g)\<lparr>count := count (ventilatorsAvailable g) - 1\<rparr>\<rparr>,
             ShowTreating p True)
      else
        Inr ([TryAcquired Ventilator False],
             g\<lparr>console := console g @ [Line (''Ventilator unavailable for '' @ name p)]\<rparr>,
             ShowTreating p False)) \<and>
   (isRunning h \<and> \<not> queueMutex h \<and> top (patientQueue h) = Some p \<and> priority p = HIGH \<and>
    0 <s available (doctorsAvailable h) \<and> 0 <s available (nursesAvailable h) \<and>
    0 <s available (examRoomsAvailable h) \<and> \<not> 0 <s available (ventilatorsAvailable h) \<longrightarrow>
      treatPatient_run doctorId 13 h LoopTest =
        Inr ([Dequeued p, Acquired Doctor, Acquired Nurse, Acquired ExamRoom,
              TryAcquired Ventilator False,
              Released Doctor, Released Nurse, Released ExamRoom],
             h\<lparr>patientQueue := remove1 p (patientQueue h),
               console := console h @
                 [Line (''Ventilator unavailable for '' @ name p),
                  Row ''Doctor'' doctorId (name p) ''High'' ''Treating...''
                    (available (doctorsAvailable h) - 1) (available (nursesAvailable h) - 1)
                    (available (examRoomsAvailable h) - 1) (available (ventilatorsAvailable h)),
                  Row ''Doctor'' doctorId (name p) ''High'' ''Finished''
                    (available (doctorsAvailable h)) (available (nursesAvailable h))
                    (available (examRoomsAvailable h)) (available (ventilatorsAvailable h))]\<rparr>,
             LoopTest))"
proof -
  have a: "k < length (treatPatient_trace doctorId hs LoopTest) \<and>
    ventilator_attempt (treatPatient_trace doctorId hs LoopTest ! k) \<longrightarrow>
      (\<exists>b. treatPatient_trace doctorId hs LoopTest ! k = TryAcquired Ventilator b) \<and>
      holding (take k (treatPatient_trace doctorId hs LoopTest)) = {#Doctor, Nurse, ExamRoom#} \<and>
      (\<exists>q. current_patient (take k (treatPatient_trace doctorId hs LoopTest)) = Some q \<and>
           priority q = HIGH)"
    using trace_ventilator [of k doctorId hs] by blast
  have b: "\<not> isl (treatPatient_step doctorId g (TryVentilator p))"
    by (simp add: try_acquire_def)
  have c: "treatPatient_run doctorId 13 h LoopTest =
        Inr (cycle_events p False,
             h\<lparr>patientQueue := remove1 p (patientQueue h),
               console := console h @ cycle_console doctorId h p False\<rparr>,
             LoopTest)"
    if "isRunning h" "\<not> queueMutex h" "top (patientQueue h) = Some p" "priority p = HIGH"
      "0 <s available (doctorsAvailable h)" "0 <s available (nursesAvailable h)"
      "0 <s available (examRoomsAvailable h)" "\<not> 0 <s available (ventilatorsAvailable h)"
    using that by (intro treatPatient_cycle) (simp_all add: available_def)
  have d: "pool_counts f' = foldl event_effect (pool_counts f) es \<and>
      (\<forall>e \<in> set es. event_enabled (pool_counts f) e)"
    if "treatPatient_step doctorId f pc = Inr (es, f', pc')"
    using that by (rule step_effect)
  have e: "(\<exists>q. pc = TryVentilator q \<and> priority q = HIGH \<and> es = [TryAcquired Ventilator True] \<and>
           0 <s count (ventilatorsAvailable f) \<and>
           count (ventilatorsAvailable f') = count (ventilatorsAvailable f) - 1) \<or>
      (\<exists>q. pc = ReleaseVentilator q True \<and> es = [Released Ventilator] \<and>
           count (ventilatorsAvailable f') = count (ventilatorsAvailable f) + 1)"
    if "treatPatient_step doctorId f pc = Inr (es, f', pc')"
      "ventilatorsAvailable f' \<noteq> ventilatorsAvailable f"
    using that by (rule step_touches_ventilator)
  note t = try_step [of doctorId g p]
  from c have c': "isRunning h \<and> \<not> queueMutex h \<and> top (patientQueue h) = Some p \<and>
      priority p = HIGH \<and>
      0 <s available (doctorsAvailable h) \<and> 0 <s available (nursesAvailable h) \<and>
      0 <s available (examRoomsAvailable h) \<and> \<not> 0 <s available (ventilatorsAvailable h) \<longrightarrow>
      treatPatient_run doctorId 13 h LoopTest =
        Inr ([Dequeued p, Acquired Doctor, Acquired Nurse, Acquired ExamRoom,
              TryAcquired Ventilator False,
              Released Doctor, Released Nurse, Released ExamRoom],
             h\<lparr>patientQueue := remove1 p (patientQueue h),
               console := console h @
                 [Line (''Ventilator unavailable for '' @ name p),
                  Row ''Doctor'' doctorId (name p) ''High'' ''Treating...''
                    (available (doctorsAvailable h) - 1) (available (nursesAvailable h) - 1)
                    (available (examRoomsAvailable h) - 1) (available (ventilatorsAvailable h)),
                  Row ''Doctor'' doctorId (name p) ''High'' ''Finished''
                    (available (doctorsAvailable h)) (available (nursesAvailable h))
                    (available (examRoomsAvailable h)) (available (ventilatorsAvailable h))]\<rparr>,
             LoopTest)"
    by (simp add: cycle_events_def cycle_console_def)
  show ?thesis
    apply (intro conjI)
          apply (rule a)
         apply (use d in blast)
        apply (use e in blast)
       apply (rule b)
      apply (rule t)
     apply (rule c')
    done
qed

theorem ventilator_best_effort_witness:
  "treatPatient_trace 1
     [initial_hospital,
      initial_hospital\<lparr>patientQueue := [\<lparr>id = 4, name = ''Patient_4'', priority = HIGH\<rparr>]\<rparr>,
      initial_hospital, initial_hospital, initial_hospital,
      initial_hospital\<lparr>ventilatorsAvailable := Semaphore 0\<rparr>] LoopTest ! 4 =
     TryAcquired Ventilator False \<and>
   treatPatient_step 1 initial_hospital
       (TryVentilator \<lparr>id = 5, name = ''Patient_5'', priority = LOW\<rparr>) =
     Inr ([], initial_hospital, ShowTreating \<lparr>id = 5, name = ''Patient_5'', priority = LOW\<rparr> False) \<and>
   treatPatient_step 1 initial_hospital
       (TryVentilator \<lparr>id = 4, name = ''Patient_4'', priority = HIGH\<rparr>) =
     Inr ([TryAcquired Ventilator True], initial_hospital\<lparr>ventilatorsAvailable := Semaphore 0\<rparr>,
          ShowTreating \<lparr>id = 4, name = ''Patient_4'', priority = HIGH\<rparr> True) \<and>
   ventilatorsAvailable (initial_hospital\<lparr>ventilatorsAvailable := Semaphore 0\<rparr>) \<noteq>
     ventilatorsAvailable initial_hospital \<and>
   pool_counts (initial_hospital\<lparr>ventilatorsAvailable := Semaphore 0\<rparr>) Ventilator = 0 \<and>
   treatPatient_run 1 13
     \<lparr>patientQueue = [\<lparr>id = 4, name = ''Patient_4'', priority = HIGH\<rparr>], queueMutex = False,
      doctorsAvailable = Semaphore 1, nursesAvailable = Semaphore 1,
      examRoomsAvailable = Semaphore 1, ventilatorsAvailable = Semaphore 0,
      isRunning = True, console = []\<rparr> LoopTest =
     Inr ([Dequeued \<lparr>id = 4, name = ''Patient_4'', priority = HIGH\<rparr>,
           Acquired Doctor, Acquired Nurse, Acquired ExamRoom,
           TryAcquired Ventilator False,
           Released Doctor, Released Nurse, Released ExamRoom],
          \<lparr>patientQueue = [], queueMutex = False,
           doctorsAvailable = Semaphore 1, nursesAvailable = Semaphore 1,
           examRoomsAvailable = Semaphore 1, ventilatorsAvailable = Semaphore 0,
           isRunning = True,
           console =
             [Line ''Ventilator unavailable for Patient_4'',
              Row ''Doctor'' 1 ''Patient_4'' ''High'' ''Treating...'' 0 0 0 0,
              Row ''Doctor'' 1 ''Patient_4'' ''High'' ''Finished'' 1 1 1 0]\<rparr>,
          LoopTest)"
  using ventilator_best_effort
    [where k = 4 and doctorId = 1
       and hs = "[initial_hospital,
         initial_hospital\<lparr>patientQueue :=
           [\<lparr>id = 4, name = ''Patient_4'', priority = HIGH\<rparr>]\<rparr>,
         initial_hospital, initial_hospital, initial_hospital,
         initial_hospital\<lparr>ventilatorsAvailable := Semaphore 0\<rparr>]"
       and f = initial_hospital
       and pc = "TryVentilator \<lparr>id = 4, name = ''Patient_4'', priority = HIGH\<rparr>"
       and es = "[TryAcquired Ventilator True]"
       and f' = "initial_hospital\<lparr>ventilatorsAvailable := Semaphore 0\<rparr>"
       and pc' = "ShowTreating \<lparr>id = 4, name = ''Patient_4'', priority = HIGH\<rparr> True"
       and g = initial_hospital
       and p = "\<lparr>id = 4, name = ''Patient_4'', priority = HIGH\<rparr>"
       and h = "\<lparr>patientQueue = [\<lparr>id = 4, name = ''Patient_4'', priority = HIGH\<rparr>],
         queueMutex = False,
         doctorsAvailable = Semaphore 1, nursesAvailable = Semaphore 1,
         examRoomsAvailable = Semaphore 1, ventilatorsAvailable = Semaphore 0,
         isRunning = True, console = []\<rparr>"]
    ventilator_best_effort
    [where doctorId = 1 and g = initial_hospital
       and p = "\<lparr>id = 5, name = ''Patient_5'', priority = LOW\<rparr>"]
  by (simp add: initial_hospital_def top_def pop_def acquire_def try_acquire_def Semaphore_def
      available_def word_sless_alt ComparePatient_def pool_counts_def)

subsection \<open>The staff thread\<close>

text \<open>
  C8. The staff thread runs one cycle alone, from its loop test back to its loop test, with
  the flag set and the queue's mutex free. When a doctor is available the cycle takes one
  unit by \<open>try_acquire\<close>, keeps it over the break (the available count is one less, and
  not negative), gives it back, and ends with the doctors' semaphore as it was; only the
  console has changed. When no doctor is available the cycle ends after the failed attempt
  with the shared state unchanged. At no point of either cycle is the available count
  above its value at the start.
\<close>

theorem staff_break_cycle:
  assumes "isRunning h" and "\<not> queueMutex h"
  shows "(0 <s available (doctorsAvailable h) \<longrightarrow>
      staffBehavior_run 6 h StaffLoopTest =
        [(h, StaffSleep), (h, StaffTry),
         (h\<lparr>queueMutex := True,
            doctorsAvailable := (doctorsAvailable h)\<lparr>count := count (doctorsAvailable h) - 1\<rparr>\<rparr>,
          StaffBreak),
         (h\<lparr>queueMutex := True,
            doctorsAvailable := (doctorsAvailable h)\<lparr>count := count (doctorsAvailable h) - 1\<rparr>\<rparr>,
          StaffRelease),
         (h\<lparr>queueMutex := True\<rparr>, StaffReturn),
         (h\<lparr>console := console h @
              [Line ''A doctor has returned from a break, increasing availability.'']\<rparr>,
          StaffLoopTest)] \<and>
      sint (available ((doctorsAvailable h)\<lparr>count := count (doctorsAvailable h) - 1\<rparr>)) =
        sint (available (doctorsAvailable h)) - 1 \<and>
      0 \<le> sint (available ((doctorsAvailable h)\<lparr>count := count (doctorsAvailable h) - 1\<rparr>)) \<and>
      (\<forall>(h', pc') \<in> set (staffBehavior_run 6 h StaffLoopTest).
          0 \<le> sint (available (doctorsAvailable h')) \<and>
          sint (available (doctorsAvailable h')) \<le> sint (available (doctorsAvailable h)))) \<and>
    (\<not> 0 <s available (doctorsAvailable h) \<longrightarrow>
      staffBehavior_run 3 h StaffLoopTest =
        [(h, StaffSleep), (h, StaffTry), (h, StaffLoopTest)])"
proof -
  have 6: "(6 :: nat) = Suc (Suc (Suc (Suc (Suc (Suc 0)))))" and 3: "(3 :: nat) = Suc (Suc (Suc 0))"
    by simp_all
  have a: "0 <s count (doctorsAvailable h) \<Longrightarrow>
      sint (count (doctorsAvailable h) - 1) = sint (count (doctorsAvailable h)) - 1 \<and>
      0 \<le> sint (count (doctorsAvailable h) - 1) \<and> 0 \<le> sint (count (doctorsAvailable h))"
    by (simp add: sint_pred) (simp add: word_sless_alt)
  show ?thesis
    unfolding 6 3 using assms a
    by (auto simp: available_def try_acquire_def release_pred)
qed

theorem staff_break_cycle_witness:
  "isRunning initial_hospital \<and> \<not> queueMutex initial_hospital \<and>
   0 <s available (doctorsAvailable initial_hospital) \<and>
   map (\<lambda>(h, pc). (available (doctorsAvailable h), pc))
      (staffBehavior_run 6 initial_hospital StaffLoopTest) =
     [(3, StaffSleep), (3, StaffTry), (2, StaffBreak), (2, StaffRelease), (3, StaffReturn),
      (3, StaffLoopTest)] \<and>
   \<not> 0 <s available (doctorsAvailable (initial_hospital\<lparr>doctorsAvailable := Semaphore 0\<rparr>)) \<and>
   staffBehavior_run 3 (initial_hospital\<lparr>doctorsAvailable := Semaphore 0\<rparr>) StaffLoopTest =
     [(initial_hospital\<lparr>doctorsAvailable := Semaphore 0\<rparr>, StaffSleep),
      (initial_hospital\<lparr>doctorsAvailable := Semaphore 0\<rparr>, StaffTry),
      (initial_hospital\<lparr>doctorsAvailable := Semaphore 0\<rparr>, StaffLoopTest)]"
  using staff_break_cycle [of initial_hospital]
    staff_break_cycle [of "initial_hospital\<lparr>doctorsAvailable := Semaphore 0\<rparr>"]
  by (simp add: initial_hospital_def available_def Semaphore_def word_sless_alt)

subsection \<open>The ventilator pool\<close>

lemma length_filter_update:
  "i < length xs \<Longrightarrow>
   int (length (filter P (xs[i := y]))) =
     int (length (filter P xs)) - (if P (xs ! i) then 1 else 0) + (if P y then 1 else 0)"
proof (induction xs arbitrary: i)
  case Nil
  then show ?case by simp
next
  case (Cons x xs)
  show ?case
  proof (cases i)
    case 0
    then show ?thesis by simp
  next
    case (Suc j)
    then have "j < length xs"
      using Cons.prems by simp
    from Cons.IH [OF this] Suc show ?thesis
      by (auto split: if_splits)
  qed
qed

lemma treatPatient_step_ventilator:
  assumes "treatPatient_step i h pc = Inr (es, h', pc')"
  shows "sint (count (ventilatorsAvailable h')) + (if holds_ventilator pc' then 1 else 0) =
         sint (count (ventilatorsAvailable h)) + (if holds_ventilator pc then 1 else 0) \<and>
         (0 \<le> sint (count (ventilatorsAvailable h)) \<longrightarrow>
          0 \<le> sint (count (ventilatorsAvailable h')))"
  using assms
  by (cases pc)
    (auto simp: acquire_def release_def try_acquire_def displayState_def sint_pred sint_succ
      word_sless_alt split: if_splits sum.splits option.splits prod.splits)

lemma patientArrival_step_ventilator:
  assumes "patientArrival_step r after h t = Inr (h', t')"
  shows "ventilatorsAvailable h' = ventilatorsAvailable h"
proof -
  obtain n pc where "t = (n, pc)" by (cases t)
  with assms show ?thesis
    by (cases pc) (auto simp: addPatient_def displayState_def split: if_splits)
qed

lemma dynamicResourceGeneration_step_ventilator:
  assumes "dynamicResourceGeneration_step r1 r2 r3 h pc = Inr (h', pc')"
  shows "ventilatorsAvailable h' = ventilatorsAvailable h"
  using assms by (cases pc) (auto split: if_splits sum.splits)

lemma staffBehavior_step_ventilator:
  assumes "staffBehavior_step h pc = Inr (h', pc')"
  shows "ventilatorsAvailable h' = ventilatorsAvailable h"
  using assms by (cases pc) (auto split: if_splits sum.splits prod.splits bool.splits)

lemma system_step_books:
  assumes "system_step a s = Inr s'" and "ventilator_books s"
  shows "ventilator_books s'"
proof (cases a)
  case (RunDoctor i)
  with assms(1) obtain es h' pc' where i: "i < length (doctorThreads s)"
    and step: "treatPatient_step (of_nat (i + 1)) (hospital s) (doctorThreads s ! i) = Inr (es, h', pc')"
    and s': "s' = s\<lparr>hospital := h', doctorThreads := (doctorThreads s)[i := pc']\<rparr>"
    by (auto split: if_splits sum.splits)
  show ?thesis
    using assms(2) treatPatient_step_ventilator [OF step]
      length_filter_update [OF i, of holds_ventilator pc']
    unfolding ventilator_books_def ventilators_in_use_def s' available_def
    by (simp split: if_splits)
next
  case (RunArrival r after)
  with assms show ?thesis
    by (auto simp: ventilator_books_def ventilators_in_use_def
        split: sum.splits dest: patientArrival_step_ventilator)
next
  case (RunResource r1 r2 r3)
  with assms show ?thesis
    by (auto simp: ventilator_books_def ventilators_in_use_def
        split: sum.splits dest: dynamicResourceGeneration_step_ventilator)
next
  case RunStaff
  with assms show ?thesis
    by (auto simp: ventilator_books_def ventilators_in_use_def
        split: sum.splits dest: staffBehavior_step_ventilator)
next
  case StopRunning
  with assms show ?thesis
    by (auto simp: ventilator_books_def ventilators_in_use_def)
qed

lemma run_system_books:
  "run_system as s = Inr s' \<Longrightarrow> ventilator_books s \<Longrightarrow> ventilator_books s'"
proof (induction as arbitrary: s)
  case Nil
  then show ?case by simp
next
  case (Cons a as)
  then show ?case
    by (auto split: sum.splits dest: system_step_books)
qed

lemma initial_books: "ventilator_books initial_system"
  by (simp add: ventilator_books_def ventilators_in_use_def initial_system_def
      initial_hospital_def Semaphore_def available_def)

text \<open>
  C9. In every state the simulation reaches from its start, under every schedule, the
  available count of the ventilator pool plus the number of doctor threads holding the
  ventilator is 1; so the count is never above 1 and never negative. No step of the
  resource thread changes the ventilator pool. In the record of a doctor thread among other
  threads, the thread holds the ventilator whenever it releases it.
\<close>

theorem ventilator_never_exceeds_one:
  "(run_system as initial_system = Inr s \<longrightarrow>
      sint (available (ventilatorsAvailable (hospital s))) + int (ventilators_in_use s) = 1 \<and>
      sint (available (ventilatorsAvailable (hospital s))) \<le> 1 \<and>
      0 \<le> sint (available (ventilatorsAvailable (hospital s)))) \<and>
   (dynamicResourceGeneration_step r1 r2 r3 h pc = Inr (h', pc') \<longrightarrow>
      ventilatorsAvailable h' = ventilatorsAvailable h) \<and>
   (k < length (treatPatient_trace doctorId hs LoopTest) \<and>
    treatPatient_trace doctorId hs LoopTest ! k = Released Ventilator \<longrightarrow>
      Ventilator \<in># holding (take k (treatPatient_trace doctorId hs LoopTest)))"
proof -
  have a: "sint (available (ventilatorsAvailable (hospital s))) + int (ventilators_in_use s) = 1 \<and>
      sint (available (ventilatorsAvailable (hospital s))) \<le> 1 \<and>
      0 \<le> sint (available (ventilatorsAvailable (hospital s)))"
    if run: "run_system as initial_system = Inr s"
  proof -
    have "ventilator_books s"
      using run initial_books by (rule run_system_books)
    then show ?thesis
      by (simp add: ventilator_books_def)
  qed
  show ?thesis
    using a dynamicResourceGeneration_step_ventilator [of r1 r2 r3 h pc h' pc']
      trace_released [of k doctorId hs]
    by blast
qed

theorem ventilator_never_exceeds_one_witness:
  "(case run_system
      [RunArrival 0 True, RunArrival 0 True, RunArrival 0 True,
       RunDoctor 0, RunDoctor 0, RunDoctor 0, RunDoctor 0, RunDoctor 0, RunDoctor 0]
      initial_system of
      Inl e \<Rightarrow> False
    | Inr s \<Rightarrow>
        available (ventilatorsAvailable (hospital s)) = 0 \<and> ventilators_in_use s = 1 \<and>
        sint (available (ventilatorsAvailable (hospital s))) + int (ventilators_in_use s) = 1)"
proof -
  let ?as = "[RunArrival 0 True, RunArrival 0 True, RunArrival 0 True,
       RunDoctor 0, RunDoctor 0, RunDoctor 0, RunDoctor 0, RunDoctor 0, RunDoctor 0]"
  have "case run_system ?as initial_system of
      Inl e \<Rightarrow> False
    | Inr s \<Rightarrow> available (ventilatorsAvailable (hospital s)) = 0 \<and> ventilators_in_use s = 1"
    by code_simp
  then obtain s where run: "run_system ?as initial_system = Inr s"
    and s: "available (ventilatorsAvailable (hospital s)) = 0" "ventilators_in_use s = 1"
    by (auto split: sum.splits)
  from ventilator_never_exceeds_one [of ?as s] run
  have "sint (available (ventilatorsAvailable (hospital s))) + int (ventilators_in_use s) = 1"
    by simp
  with run s show ?thesis
    by simp
qed

subsection \<open>Shutdown\<close>

text \<open>
  C2 as stated does not hold. The schedule \<open>shutdown_schedule\<close> runs to its end. The flag
  is cleared while patient 4 is in the queue; every doctor thread finishes its treatment,
  finds the flag cleared at its loop test and returns. All three threads have terminated
  and patient 4 is still queued.
\<close>

theorem shutdown_leaves_patient_queued:
  "(case run_system shutdown_schedule initial_system of
      Inl e \<Rightarrow> False
    | Inr s \<Rightarrow>
        \<not> isRunning (hospital s) \<and>
        doctorThreads s = [Terminated, Terminated, Terminated] \<and>
        patientQueue (hospital s) = [\<lparr>id = 4, name = ''Patient_5'', priority = MEDIUM\<rparr>])"
  by code_simp

lemma dequeued_append: "dequeued (xs @ ys) = dequeued xs @ dequeued ys"
  by (induction xs rule: dequeued.induct) simp_all

lemma step_after_shutdown:
  assumes "treatPatient_step i h pc = Inr (es, h', pc')" and "\<not> isRunning h"
  shows "length (dequeued es) + (if pc' = WaitQueue then 1 else 0) \<le>
         (if pc = WaitQueue then 1 else 0)"
  using assms
  by (cases pc) (auto split: if_splits sum.splits option.splits prod.splits bool.splits)

lemma trace_after_shutdown:
  "\<forall>h \<in> set hs. \<not> isRunning h \<Longrightarrow>
   length (dequeued (treatPatient_trace i hs pc)) \<le> (if pc = WaitQueue then 1 else 0)"
proof (induction hs arbitrary: pc)
  case Nil
  then show ?case by simp
next
  case (Cons h hs)
  then have h: "\<not> isRunning h" and hs: "\<forall>h \<in> set hs. \<not> isRunning h"
    by simp_all
  show ?case
  proof (cases "treatPatient_step i h pc")
    case (Inl e)
    with Cons.IH [OF hs, of pc] show ?thesis
      by (cases e) simp_all
  next
    case (Inr res)
    obtain es h' pc' where res: "res = (es, h', pc')"
      by (cases res) auto
    from step_after_shutdown [OF Inr [unfolded res] h] Cons.IH [OF hs, of pc'] Inr res
    show ?thesis
      by (simp add: dequeued_append split: if_splits)
  qed
qed

lemma step_terminates:
  assumes "treatPatient_step i h pc = Inr (es, h', Terminated)"
  shows "\<not> isRunning h \<and> (pc = LoopTest \<or> pc = WaitQueue \<and> patientQueue h = []) \<and>
         h' = h \<and> es = []"
  using assms
  by (cases pc) (auto split: if_splits sum.splits option.splits prod.splits bool.splits)

text \<open>
  C2, amended. After the flag is cleared, a doctor thread in its wait on the queue takes the
  top patient when the queue is not empty, and returns from the wait only when the queue
  is empty. A thread at its loop test returns whatever the queue holds. A thread terminates
  at these two points only, with the flag cleared and without changing the shared state, so
  never in the middle of a treatment. Among other threads that keep the flag cleared, a
  thread takes at most one more patient off the queue when it is in its wait, and none from
  any other control point.
\<close>

theorem shutdown_behaviour:
  "(\<not> isRunning h \<and> \<not> queueMutex h \<and> top (patientQueue h) = Some p \<longrightarrow>
      treatPatient_step doctorId h WaitQueue =
        Inr ([Dequeued p], h\<lparr>patientQueue := remove1 p (patientQueue h)\<rparr>, AcquireDoctor p)) \<and>
   (\<not> isRunning h \<and> \<not> queueMutex h \<and> patientQueue h = [] \<longrightarrow>
      treatPatient_step doctorId h WaitQueue = Inr ([], h, Terminated)) \<and>
   (\<not> isRunning h \<longrightarrow> treatPatient_step doctorId h LoopTest = Inr ([], h, Terminated)) \<and>
   (treatPatient_step doctorId h pc = Inr (es, h', Terminated) \<longrightarrow>
      \<not> isRunning h \<and> (pc = LoopTest \<or> pc = WaitQueue \<and> patientQueue h = []) \<and>
      h' = h \<and> es = []) \<and>
   ((\<forall>g \<in> set hs. \<not> isRunning g) \<longrightarrow>
      length (dequeued (treatPatient_trace doctorId hs pc)) \<le> (if pc = WaitQueue then 1 else 0))"
proof -
  have a: "treatPatient_step doctorId h WaitQueue =
        Inr ([Dequeued p], h\<lparr>patientQueue := remove1 p (patientQueue h)\<rparr>, AcquireDoctor p)"
    if "\<not> isRunning h" "\<not> queueMutex h" "top (patientQueue h) = Some p"
  proof -
    have "patientQueue h \<noteq> []"
      using that(3) by (auto simp: top_def)
    with that show ?thesis
      by (simp add: pop_def)
  qed
  show ?thesis
    using a step_terminates [of doctorId h pc es h'] trace_after_shutdown [of hs doctorId pc]
    by simp
qed

theorem shutdown_behaviour_witness:
  "\<not> isRunning waiting_room \<and> \<not> queueMutex waiting_room \<and>
   top (patientQueue waiting_room) = Some \<lparr>id = 1, name = ''Patient_1'', priority = LOW\<rparr> \<and>
   treatPatient_step 1 waiting_room WaitQueue =
     Inr ([Dequeued \<lparr>id = 1, name = ''Patient_1'', priority = LOW\<rparr>],
          waiting_room\<lparr>patientQueue := [\<lparr>id = 2, name = ''Patient_2'', priority = LOW\<rparr>]\<rparr>,
          AcquireDoctor \<lparr>id = 1, name = ''Patient_1'', priority = LOW\<rparr>) \<and>
   treatPatient_step 1 waiting_room LoopTest = Inr ([], waiting_room, Terminated) \<and>
   length (dequeued (treatPatient_trace 1 (replicate 20 waiting_room) WaitQueue)) \<le> 1"
  using shutdown_behaviour [of waiting_room "\<lparr>id = 1, name = ''Patient_1'', priority = LOW\<rparr>" 1
      LoopTest "[]" waiting_room "replicate 20 waiting_room"]
    shutdown_behaviour [of waiting_room "\<lparr>id = 1, name = ''Patient_1'', priority = LOW\<rparr>" 1
      WaitQueue "[]" waiting_room "replicate 20 waiting_room"]
  by (simp add: waiting_room_def initial_hospital_def top_def ComparePatient_def word_sless_alt)

end
